theory Spec2Isabelle
  imports Main
begin

section \<open>JavaScript values\<close>

text \<open>
  The values that reach the resource manager: \<open>undefined\<close>, \<open>null\<close>, booleans, numbers,
  strings and plain objects. An object carries the identity of its reference
  (two object literals with equal contents are different keys of a \<open>Map\<close>) and its own
  properties in enumeration order.

  A number is a safe integer (\<open>Number.isSafeInteger\<close>): an integer of magnitude below
  \<open>2^53\<close>, which a double holds exactly and which \<open>Number.prototype.toString\<close> and
  \<open>JSON.stringify\<close> print with all its decimal digits. Functions, arrays, symbols,
  objects with a \<open>toJSON\<close> method and the other numbers (fractions, \<open>NaN\<close>, the
  infinities, and the integers from \<open>2^53\<close> on, which are printed in exponent form from
  \<open>10^21\<close> on) are outside this model. The literal \<open>3010\<close> of the source is
  \<open>Abs_safe_int 3010\<close>.
\<close>

typedef safe_int = "{n :: int. - (2 ^ 53) < n \<and> n < 2 ^ 53}"
  by (rule exI [of _ 0]) simp

datatype jsval =
    JUndefined
  | JNull
  | JBool bool
  | JNum safe_int
  | JStr string
  | JObj nat "(string \<times> jsval) list"

datatype error =
    Error string       \<comment> \<open>\<open>throw new Error(message)\<close>\<close>
  | TypeError          \<comment> \<open>raised by the engine or by an argument check of Node\<close>
  | SystemError string \<comment> \<open>raised by \<open>fs\<close>\<close>

type_synonym 'a result = "error + 'a"

text \<open>\<open>ToBoolean\<close>: what \<open>!x\<close>, \<open>x || y\<close> and \<open>x && y\<close> test.\<close>

fun truthy :: "jsval \<Rightarrow> bool" where
  "truthy JUndefined = False"
| "truthy JNull = False"
| "truthy (JBool b) = b"
| "truthy (JNum n) = (Rep_safe_int n \<noteq> 0)"
| "truthy (JStr s) = (s \<noteq> [])"
| "truthy (JObj i ps) = True"

definition js_or :: "jsval \<Rightarrow> jsval \<Rightarrow> jsval" where
  "js_or a b = (if truthy a then a else b)"

definition nullish :: "jsval \<Rightarrow> bool" where
  "nullish v = (v = JUndefined \<or> v = JNull)"

text \<open>
  Decimal digits of a number, as \<open>Number.prototype.toString\<close> prints a safe integer:
  a minus sign for a negative one, then every digit, no exponent.
\<close>

definition digit_char :: "nat \<Rightarrow> char" where
  "digit_char d = ''0123456789'' ! (d mod 10)"

fun nat_digits :: "nat \<Rightarrow> string" where
  "nat_digits n = (if n < 10 then [digit_char n] else nat_digits (n div 10) @ [digit_char (n mod 10)])"

declare nat_digits.simps [simp del]

definition number_to_string :: "safe_int \<Rightarrow> string" where
  "number_to_string n =
     (if Rep_safe_int n < 0 then CHR ''-'' # nat_digits (nat (- Rep_safe_int n))
      else nat_digits (nat (Rep_safe_int n)))"

text \<open>\<open>ToString\<close>, the coercion of \<open>'' + x\<close> and of a property key.\<close>

fun to_string :: "jsval \<Rightarrow> string" where
  "to_string JUndefined = ''undefined''"
| "to_string JNull = ''null''"
| "to_string (JBool b) = (if b then ''true'' else ''false'')"
| "to_string (JNum n) = number_to_string n"
| "to_string (JStr s) = s"
| "to_string (JObj i ps) = ''[object Object]''"

text \<open>
  \<open>o[k]\<close>: reading a property of \<open>undefined\<close> or \<open>null\<close> throws a TypeError; an object
  answers with its own property or \<open>undefined\<close>; the other primitives have none of the
  properties this module reads by name (\<open>PROJECT_PATH\<close>, \<open>BUILD_REFERENCE_URL\<close>,
  \<open>DEV_PORT\<close>, \<open>js\<close>). An inherited member reached through the manifest
  (\<open>assetsMeta['constructor']\<close>) has no \<open>js\<close> property, so the chain
  \<open>assetsMeta && assetsMeta[appName] && assetsMeta[appName].js\<close> is falsy there as it
  is here.
\<close>

fun js_get :: "jsval \<Rightarrow> string \<Rightarrow> jsval result" where
  "js_get JUndefined k = Inl TypeError"
| "js_get JNull k = Inl TypeError"
| "js_get (JObj i ps) k = Inr (case map_of ps k of None \<Rightarrow> JUndefined | Some v \<Rightarrow> v)"
| "js_get v k = Inr JUndefined"

text \<open>The \<open>n\<close>-th actual argument of a call; a missing argument reads as \<open>undefined\<close>.\<close>

definition arg :: "nat \<Rightarrow> jsval list \<Rightarrow> jsval" where
  "arg n args = (if n < length args then args ! n else JUndefined)"

text \<open>
  A parameter declared \<open>options = {}\<close>: the default replaces a missing argument and
  \<open>undefined\<close>, nothing else. The fresh object is never used as a cache key, so its
  identity is immaterial.
\<close>

definition default_options :: "jsval \<Rightarrow> jsval" where
  "default_options v = (if v = JUndefined then JObj 0 [] else v)"

section \<open>\<open>JSON.stringify\<close>\<close>

definition dq :: char where
  "dq = CHR 0x22"

definition bsl :: char where
  "bsl = CHR 0x5C"

definition sq :: char where
  "sq = CHR 0x27"

definition hex_char :: "nat \<Rightarrow> char" where
  "hex_char d = ''0123456789abcdef'' ! (d mod 16)"

text \<open>\<open>QuoteJSONString\<close>, one code unit at a time.\<close>

definition json_escape_char :: "char \<Rightarrow> string" where
  "json_escape_char c =
     (if c = dq then [bsl, dq]
      else if c = bsl then [bsl, bsl]
      else if c = CHR 0x08 then [bsl, CHR ''b'']
      else if c = CHR 0x0C then [bsl, CHR ''f'']
      else if c = CHR 0x0A then [bsl, CHR ''n'']
      else if c = CHR 0x0D then [bsl, CHR ''r'']
      else if c = CHR 0x09 then [bsl, CHR ''t'']
      else if (of_char c :: nat) < 32
        then [bsl, CHR ''u'', CHR ''0'', CHR ''0'', hex_char (of_char c div 16), hex_char (of_char c mod 16)]
      else [c])"

fun json_escape :: "string \<Rightarrow> string" where
  "json_escape [] = []"
| "json_escape (c # cs) = json_escape_char c @ json_escape cs"

definition json_quote :: "string \<Rightarrow> string" where
  "json_quote s = dq # json_escape s @ [dq]"

text \<open>
  \<open>json_value\<close> is \<open>SerializeJSONProperty\<close>: \<open>None\<close> stands for the answer
  \<open>undefined\<close>. A property of an object whose value has no serialization is left out.
\<close>

fun json_members_join :: "string list \<Rightarrow> string" where
  "json_members_join [] = []"
| "json_members_join [m] = m"
| "json_members_join (m # n # ms) = m @ CHR '','' # json_members_join (n # ms)"

fun json_value :: "jsval \<Rightarrow> string option"
  and json_members :: "(string \<times> jsval) list \<Rightarrow> string list" where
  "json_value JUndefined = None"
| "json_value JNull = Some ''null''"
| "json_value (JBool b) = Some (if b then ''true'' else ''false'')"
| "json_value (JNum n) = Some (number_to_string n)"
| "json_value (JStr s) = Some (json_quote s)"
| "json_value (JObj i ps) = Some (CHR ''{'' # json_members_join (json_members ps) @ ''}'')"
| "json_members [] = []"
| "json_members ((k, v) # ps) =
     (case json_value v of
        None \<Rightarrow> json_members ps
      | Some j \<Rightarrow> (json_quote k @ CHR '':'' # j) # json_members ps)"

text \<open>An element of an array: \<open>undefined\<close> is written \<open>null\<close>.\<close>

definition json_element :: "jsval \<Rightarrow> string" where
  "json_element v = (case json_value v of None \<Rightarrow> ''null'' | Some j \<Rightarrow> j)"

fun json_array_tail :: "jsval list \<Rightarrow> string" where
  "json_array_tail [] = '']''"
| "json_array_tail (v # vs) = CHR '','' # json_element v @ json_array_tail vs"

text \<open>\<open>JSON.stringify(args)\<close> of the array of actual arguments.\<close>

fun stringify_args :: "jsval list \<Rightarrow> string" where
  "stringify_args [] = ''[]''"
| "stringify_args (v # vs) = CHR ''['' # json_element v @ json_array_tail vs"

section \<open>\<open>path.join\<close> (POSIX)\<close>

fun split_slash :: "string \<Rightarrow> string list" where
  "split_slash [] = [[]]"
| "split_slash (c # cs) =
     (if c = CHR ''/'' then [] # split_slash cs
      else (case split_slash cs of [] \<Rightarrow> [[c]] | seg # segs \<Rightarrow> (c # seg) # segs))"

text \<open>
  \<open>normalizeString\<close> of Node, on the segments between slashes: the accumulator holds
  the kept segments, last one first.
\<close>

fun normalize_segments :: "bool \<Rightarrow> string list \<Rightarrow> string list \<Rightarrow> string list" where
  "normalize_segments allowAboveRoot acc [] = rev acc"
| "normalize_segments allowAboveRoot acc (seg # segs) =
     (if seg = [] \<or> seg = ''.'' then normalize_segments allowAboveRoot acc segs
      else if seg = ''..'' then
        (case acc of
           [] \<Rightarrow> normalize_segments allowAboveRoot (if allowAboveRoot then [''..''] else []) segs
         | a # acc' \<Rightarrow>
             if a = ''..'' then normalize_segments allowAboveRoot (if allowAboveRoot then ''..'' # acc else acc) segs
             else normalize_segments allowAboveRoot acc' segs)
      else normalize_segments allowAboveRoot (seg # acc) segs)"

fun join_slash :: "string list \<Rightarrow> string" where
  "join_slash [] = []"
| "join_slash [s] = s"
| "join_slash (s # t # ts) = s @ CHR ''/'' # join_slash (t # ts)"

definition path_normalize :: "string \<Rightarrow> string" where
  "path_normalize p =
     (if p = [] then ''.''
      else
        let isAbsolute = (hd p = CHR ''/'');
            trailingSeparator = (last p = CHR ''/'');
            q = join_slash (normalize_segments (\<not> isAbsolute) [] (split_slash p))
        in if q = [] then (if isAbsolute then ''/'' else if trailingSeparator then ''./'' else ''.'')
           else
             let q' = (if trailingSeparator then q @ ''/'' else q)
             in if isAbsolute then CHR ''/'' # q' else q')"

text \<open>Every argument is checked to be a string, in order, before anything is joined.\<close>

fun path_strings :: "jsval list \<Rightarrow> string list result" where
  "path_strings [] = Inr []"
| "path_strings (JStr s # vs) =
     (case path_strings vs of Inl e \<Rightarrow> Inl e | Inr ss \<Rightarrow> Inr (s # ss))"
| "path_strings (v # vs) = Inl TypeError"

definition path_join :: "jsval list \<Rightarrow> string result" where
  "path_join vs =
     (case path_strings vs of
        Inl e \<Rightarrow> Inl e
      | Inr ss \<Rightarrow>
          (let parts = filter (\<lambda>s. s \<noteq> []) ss
           in if parts = [] then Inr ''.'' else Inr (path_normalize (join_slash parts))))"

section \<open>The pattern \<open>/\.([^.]+)\.js$/\<close>\<close>

text \<open>
  A match anchored at the head of \<open>t\<close>: a dot, the longest run of characters other than
  a dot (a shorter run would have to be followed by a dot, which the run does not
  contain), then \<open>.js\<close> and the end of the string. The answer is the captured group.
\<close>

definition match_here :: "string \<Rightarrow> string option" where
  "match_here t =
     (case t of
        [] \<Rightarrow> None
      | c # u \<Rightarrow>
          if c = CHR ''.'' \<and> takeWhile (\<lambda>x. x \<noteq> CHR ''.'') u \<noteq> []
             \<and> dropWhile (\<lambda>x. x \<noteq> CHR ''.'') u = ''.js''
          then Some (takeWhile (\<lambda>x. x \<noteq> CHR ''.'') u) else None)"

text \<open>\<open>String.prototype.match\<close> without the \<open>g\<close> flag: the leftmost match.\<close>

fun hash_match :: "string \<Rightarrow> string option" where
  "hash_match [] = match_here []"
| "hash_match (c # cs) =
     (case match_here (c # cs) of Some h \<Rightarrow> Some h | None \<Rightarrow> hash_match cs)"

section \<open>The resource manager\<close>

text \<open>
  What a memoized function reads outside its arguments at the moment of a call: the
  process environment, the module loader (\<open>require\<close> of a JSON file answers with the
  parsed value or fails) and the file system.
\<close>

record world =
  NODE_ENV :: "string option"
  DEVSERVER_URL :: "string option"
  DEV_PORT :: "string option"
  require :: "string \<Rightarrow> jsval option"
  existsSync :: "string \<Rightarrow> bool"
  readFileSync :: "string \<Rightarrow> string option"

text \<open>A variable of \<open>process.env\<close> is a string or \<open>undefined\<close>.\<close>

definition env_value :: "string option \<Rightarrow> jsval" where
  "env_value e = (case e of None \<Rightarrow> JUndefined | Some s \<Rightarrow> JStr s)"

datatype console_entry = ConsoleLog string | ConsoleError string

text \<open>
  The key under which lodash's \<open>MapCache\<close> files a value: primitives by value, objects
  by reference.
\<close>

datatype cache_key = KeyPrim jsval | KeyRef nat

fun key_of :: "jsval \<Rightarrow> cache_key" where
  "key_of (JObj i ps) = KeyRef i"
| "key_of v = KeyPrim v"

text \<open>
  The state of the module: the variable \<open>PROJECT_PATH\<close>, the constant
  \<open>BUILD_CLIENT_PATH\<close>, the cache of each memoized function, and what was printed.
\<close>

record rm_state =
  PROJECT_PATH :: jsval
  BUILD_CLIENT_PATH :: string
  resourcePathCache :: "string \<rightharpoonup> jsval"
  hashCache :: "cache_key \<rightharpoonup> jsval"
  stylesCache :: "cache_key \<rightharpoonup> jsval"
  console :: "console_entry list"

text \<open>The environment at the time the module is loaded (lines 13 and 14).\<close>

record load_env =
  env_PROJECT_PATH :: "string option"
  env_BUILD_CLIENT_PATH :: "string option"
  cwd :: string

definition load_module :: "load_env \<Rightarrow> rm_state" where
  "load_module le =
     \<lparr> PROJECT_PATH = js_or (env_value (env_PROJECT_PATH le)) (JStr (cwd le)),
       BUILD_CLIENT_PATH = to_string (js_or (env_value (env_BUILD_CLIENT_PATH le)) (JStr ''/build/client/'')),
       resourcePathCache = Map.empty,
       hashCache = Map.empty,
       stylesCache = Map.empty,
       console = [] \<rparr>"

text \<open>
  \<open>memoize(func, resolver)\<close> of lodash: a key that the cache has is answered from the
  cache; otherwise the function runs and, when it returns, its result is stored. A call
  that throws stores nothing.
\<close>

definition memoize ::
  "('s \<Rightarrow> 'k \<rightharpoonup> jsval) \<Rightarrow> (('k \<rightharpoonup> jsval) \<Rightarrow> 's \<Rightarrow> 's) \<Rightarrow> 'k
    \<Rightarrow> ('s \<Rightarrow> jsval result \<times> 's) \<Rightarrow> 's \<Rightarrow> jsval result \<times> 's" where
  "memoize cache_get cache_set key func s =
     (case cache_get s key of
        Some v \<Rightarrow> (Inr v, s)
      | None \<Rightarrow>
          (case func s of
             (Inl e, s') \<Rightarrow> (Inl e, s')
           | (Inr v, s') \<Rightarrow> (Inr v, cache_set ((cache_get s')(key \<mapsto> v)) s')))"

text \<open>The two-argument \<open>console.log\<close> of line 47.\<close>

definition assets_log :: "string \<Rightarrow> console_entry" where
  "assets_log p =
     ConsoleLog (p @ '' path.join(PROJECT_PATH, BUILD_CLIENT_PATH, '' @ [sq] @ ''assets.json'' @ [sq] @ '')'')"

definition no_hash_in_filename :: error where
  "no_hash_in_filename =
     Error (''No hash in bundle filename. Filename should be in the following format: ''
            @ [sq] @ ''[name].[hash].js'' @ [sq])"

text \<open>The value of \<open>assetsMeta && assetsMeta[appName] && assetsMeta[appName].js\<close>.\<close>

definition manifest_entry :: "jsval \<Rightarrow> jsval \<Rightarrow> jsval" where
  "manifest_entry assetsMeta appName =
     (if \<not> truthy assetsMeta then assetsMeta
      else case js_get assetsMeta (to_string appName) of
        Inl e \<Rightarrow> JUndefined
      | Inr entry \<Rightarrow>
          if \<not> truthy entry then entry
          else (case js_get entry ''js'' of Inl e \<Rightarrow> JUndefined | Inr j \<Rightarrow> j))"

definition getHash_func :: "world \<Rightarrow> jsval list \<Rightarrow> rm_state \<Rightarrow> jsval result \<times> rm_state" where
  "getHash_func w args s =
     (let appName = arg 0 args; type = arg 1 args; options = default_options (arg 2 args) in
      if NODE_ENV w \<noteq> Some ''production'' then (Inr JUndefined, s)
      else if \<not> truthy appName then (Inr (JStr []), s)
      else
        case js_get options ''PROJECT_PATH'' of
          Inl e \<Rightarrow> (Inl e, s)
        | Inr p \<Rightarrow>
            let s1 = s\<lparr>PROJECT_PATH := js_or p (PROJECT_PATH s)\<rparr> in
            case path_join [PROJECT_PATH s1, JStr (BUILD_CLIENT_PATH s1), JStr ''assets.json''] of
              Inl e \<Rightarrow> (Inl e, s1)
            | Inr assetsMetaPath \<Rightarrow>
                let s2 = s1\<lparr>console := console s1 @ [assets_log assetsMetaPath]\<rparr> in
                case require w assetsMetaPath of
                  None \<Rightarrow> (Inl (Error (''Error loading assets meta file at: '' @ assetsMetaPath)), s2)
                | Some assetsMeta \<Rightarrow>
                    if type = JStr ''bundle'' then
                      let hash = manifest_entry assetsMeta appName in
                        if \<not> truthy hash then
                          (Inl (Error (''No hash found for '' @ [sq] @ to_string appName @ [sq] @ '' ''
                                 @ to_string type @ '' in '' @ assetsMetaPath)), s2)
                        else
                          (case hash of
                             JStr filename \<Rightarrow>
                               (case hash_match filename of
                                  None \<Rightarrow> (Inl no_hash_in_filename, s2)
                                | Some h \<Rightarrow>
                                    if h = [] then (Inl no_hash_in_filename, s2)
                                    else (Inr (JStr h), s2))
                           | _ \<Rightarrow> (Inl TypeError, s2))
                    else
                      (Inl (Error (''No hash exists for assets of type '' @ [sq] @ to_string type @ [sq])), s2))"

text \<open>\<open>getHash\<close> has no resolver: the cache key is the first argument.\<close>

definition getHash :: "world \<Rightarrow> jsval list \<Rightarrow> rm_state \<Rightarrow> jsval result \<times> rm_state" where
  "getHash w args =
     memoize hashCache (\<lambda>c s. s\<lparr>hashCache := c\<rparr>) (key_of (arg 0 args)) (getHash_func w args)"

definition getResourcePath_func :: "world \<Rightarrow> jsval list \<Rightarrow> rm_state \<Rightarrow> jsval result \<times> rm_state" where
  "getResourcePath_func w args s =
     (let type = arg 0 args; appName = arg 1 args; options = default_options (arg 2 args) in
      if type = JStr ''bundle'' then
        (if NODE_ENV w = Some ''production'' then
           (case js_get options ''BUILD_REFERENCE_URL'' of
              Inl e \<Rightarrow> (Inl e, s)
            | Inr b \<Rightarrow>
                let prefix = js_or b (JStr []) in
                case getHash w [appName, type, options] s of
                  (Inl e, s') \<Rightarrow> (Inl e, s')
                | (Inr h, s') \<Rightarrow>
                    (Inr (JStr (to_string prefix @ BUILD_CLIENT_PATH s' @ to_string appName
                                @ (''.'' @ to_string h) @ ''.js'')), s'))
         else if truthy (env_value (DEVSERVER_URL w)) then
           (Inr (JStr (to_string (env_value (DEVSERVER_URL w)) @ BUILD_CLIENT_PATH s @ to_string appName
                       @ [] @ ''.js'')), s)
         else
           (case js_get options ''DEV_PORT'' of
              Inl e \<Rightarrow> (Inl e, s)
            | Inr port \<Rightarrow>
                (Inr (JStr ((''http://localhost:'' @ to_string (js_or port (js_or (env_value (DEV_PORT w)) (JNum (Abs_safe_int 3010)))))
                            @ BUILD_CLIENT_PATH s @ to_string appName @ [] @ ''.js'')), s)))
      else if type = JStr ''style'' then
        (Inr (JStr (BUILD_CLIENT_PATH s @ to_string appName @ ''.css'')), s)
      else
        (Inl (Error (''No resource found for '' @ [sq] @ to_string type @ [sq])), s))"

text \<open>The resolver of \<open>getResourcePath\<close> is \<open>(...args) => JSON.stringify(args)\<close>.\<close>

definition getResourcePath :: "world \<Rightarrow> jsval list \<Rightarrow> rm_state \<Rightarrow> jsval result \<times> rm_state" where
  "getResourcePath w args =
     memoize resourcePathCache (\<lambda>c s. s\<lparr>resourcePathCache := c\<rparr>) (stringify_args args)
       (getResourcePath_func w args)"

definition getProductionStyles_func :: "world \<Rightarrow> jsval list \<Rightarrow> rm_state \<Rightarrow> jsval result \<times> rm_state" where
  "getProductionStyles_func w args s =
     (let appName = arg 0 args; options = default_options (arg 1 args) in
      case js_get options ''PROJECT_PATH'' of
        Inl e \<Rightarrow> (Inl e, s)
      | Inr p \<Rightarrow>
          let s1 = s\<lparr>PROJECT_PATH := js_or p (PROJECT_PATH s)\<rparr> in
          case getResourcePath w [JStr ''style'', appName, options] s1 of
            (Inl e, s2) \<Rightarrow> (Inl e, s2)
          | (Inr styleRelPath, s2) \<Rightarrow>
              (case path_join [PROJECT_PATH s2, styleRelPath] of
                 Inl e \<Rightarrow> (Inl e, s2)
               | Inr stylePath \<Rightarrow>
                   if \<not> existsSync w stylePath then
                     (Inr JUndefined,
                      s2\<lparr>console := console s2 @
                           [ConsoleError (''No stylesheets found for '' @ [sq] @ to_string appName @ [sq]
                              @ '' at path: '' @ stylePath)]\<rparr>)
                   else
                     (case readFileSync w stylePath of
                        None \<Rightarrow> (Inl (SystemError stylePath), s2)
                      | Some style \<Rightarrow> (Inr (JStr (''<style>'' @ style @ ''</style>'')), s2))))"

definition getProductionStyles :: "world \<Rightarrow> jsval list \<Rightarrow> rm_state \<Rightarrow> jsval result \<times> rm_state" where
  "getProductionStyles w args =
     memoize stylesCache (\<lambda>c s. s\<lparr>stylesCache := c\<rparr>) (key_of (arg 0 args))
       (getProductionStyles_func w args)"

text \<open>
  The life of the module: a sequence of calls of its three exports, each made in the
  world of its moment.
\<close>

datatype call =
    GetResourcePath "jsval list"
  | GetHash "jsval list"
  | GetProductionStyles "jsval list"

fun step :: "world \<Rightarrow> call \<Rightarrow> rm_state \<Rightarrow> jsval result \<times> rm_state" where
  "step w (GetResourcePath args) s = getResourcePath w args s"
| "step w (GetHash args) s = getHash w args s"
| "step w (GetProductionStyles args) s = getProductionStyles w args s"

fun run :: "(world \<times> call) list \<Rightarrow> rm_state \<Rightarrow> rm_state" where
  "run [] s = s"
| "run ((w, c) # cs) s = run cs (snd (step w c s))"

text \<open>The \<open>options\<close> argument a call hands to the function it names.\<close>

fun call_options :: "call \<Rightarrow> jsval" where
  "call_options (GetResourcePath args) = default_options (arg 2 args)"
| "call_options (GetHash args) = default_options (arg 2 args)"
| "call_options (GetProductionStyles args) = default_options (arg 1 args)"

text \<open>An \<open>options\<close> argument that gives no (truthy) \<open>PROJECT_PATH\<close>.\<close>

definition omits_PROJECT_PATH :: "jsval \<Rightarrow> bool" where
  "omits_PROJECT_PATH options \<longleftrightarrow>
     (case js_get options ''PROJECT_PATH'' of Inl e \<Rightarrow> True | Inr p \<Rightarrow> \<not> truthy p)"

text \<open>
  Two relations between states that the proofs below maintain: no cache ever loses an
  entry, and every entry of the cache of \<open>getResourcePath\<close> was stored by a call that
  returned it.
\<close>

definition extends :: "rm_state \<Rightarrow> rm_state \<Rightarrow> bool" where
  "extends s s' \<longleftrightarrow>
     BUILD_CLIENT_PATH s' = BUILD_CLIENT_PATH s
     \<and> resourcePathCache s \<subseteq>\<^sub>m resourcePathCache s'
     \<and> hashCache s \<subseteq>\<^sub>m hashCache s'
     \<and> stylesCache s \<subseteq>\<^sub>m stylesCache s'"

definition cache_inv :: "rm_state \<Rightarrow> bool" where
  "cache_inv s \<longleftrightarrow>
     (\<forall>k v. resourcePathCache s k = Some v \<longrightarrow>
        (\<exists>args. k = stringify_args args
           \<and> (arg 0 args = JStr ''bundle''
              \<or> arg 0 args = JStr ''style''
                \<and> v = JStr (BUILD_CLIENT_PATH s @ to_string (arg 1 args) @ ''.css''))))"










definition entry_ok :: "world \<Rightarrow> rm_state \<Rightarrow> jsval list \<Rightarrow> jsval \<Rightarrow> bool" where
  "entry_ok w s args v \<longleftrightarrow>
     (arg 0 args = JStr ''style'' \<and> v = JStr (BUILD_CLIENT_PATH s @ to_string (arg 1 args) @ ''.css''))
     \<or> (arg 0 args = JStr ''bundle'' \<and>
         (if NODE_ENV w = Some ''production'' then
            (\<exists>reference h. js_get (default_options (arg 2 args)) ''BUILD_REFERENCE_URL'' = Inr reference
               \<and> hashCache s (key_of (arg 1 args)) = Some h
               \<and> v = JStr (to_string (js_or reference (JStr [])) @ BUILD_CLIENT_PATH s
                            @ to_string (arg 1 args) @ ''.'' @ to_string h @ ''.js''))
          else if truthy (env_value (DEVSERVER_URL w)) then
            v = JStr (to_string (env_value (DEVSERVER_URL w)) @ BUILD_CLIENT_PATH s
                      @ to_string (arg 1 args) @ ''.js'')
          else
            (\<exists>port. js_get (default_options (arg 2 args)) ''DEV_PORT'' = Inr port
               \<and> v = JStr (''http://localhost:''
                            @ to_string (js_or port (js_or (env_value (DEV_PORT w)) (JNum (Abs_safe_int 3010))))
                            @ BUILD_CLIENT_PATH s @ to_string (arg 1 args) @ ''.js''))))"


section \<open>Client bootstrap\<close>

text \<open>
  The constants the bootstrap imports from \<open>@startupjs/utils\<close> are parameters: the
  platform default URL and the three flags of the runtime.
\<close>

record platform =
  DEFAULT_BASE_URL :: jsval
  isDevelopment :: bool
  isExpo :: bool
  isWeb :: bool

text \<open>\<open>MODULE.options\<close>, the global configuration of the root module.\<close>

record module_options =
  mo_baseUrl :: jsval
  enableXhrFallback :: jsval
  enableServer :: jsval
  enableConnection :: jsval

record channel_options =
  baseUrl :: jsval
  forceXhrFallback :: bool

text \<open>
  What the bootstrap reads and writes: the \<open>baseUrl\<close> property of the \<open>options\<close> object
  it was given, the module configuration, \<open>axios.defaults.baseURL\<close> and
  \<open>globalThis.__startupjsChannelOptions\<close> (\<open>None\<close> before the first write).
\<close>

record client_state =
  options_baseUrl :: jsval
  MODULE_options :: module_options
  axios_baseURL :: jsval
  channelOptions :: "channel_options option"

datatype event = ConsoleWarn string | ConsoleErrorMsg string | ConnectModel

text \<open>
  \<open>commonInit\<close> and the deprecated plugins are code of other modules: each is a function
  of the state that may throw (\<open>Some e\<close>) and leaves a state behind either way.
\<close>

type_synonym effect = "client_state \<Rightarrow> error option \<times> client_state"

definition NO_BASE_URL_WARN :: "jsval \<Rightarrow> string" where
  "NO_BASE_URL_WARN d =
     [CHR 0x0A] @ ''  !!! WARNING !!! baseUrl option is not specified.'' @ [CHR 0x0A]
     @ ''  Defaulting to '' @ to_string d @ [CHR 0x0A]
     @ [CHR 0x0A]
     @ ''  !!! IMPORTANT !!!'' @ [CHR 0x0A]
     @ ''  This might only work fine in development mode or if you are on Web.'' @ [CHR 0x0A]
     @ ''  In order for the app to work in production on React Native (iOS and Android),'' @ [CHR 0x0A]
     @ ''  you MUST explicitly provide the baseUrl option because the app can'' @ [sq] @ ''t guess it.'' @ [CHR 0x0A]
     @ ''  The simplest way to do it is to create a file '' @ [CHR 0x60] @ ''.env.production'' @ [CHR 0x60] @ [CHR 0x0A]
     @ ''  and put '' @ [CHR 0x60] @ ''BASE_URL=https://mydomain.com'' @ [CHR 0x60] @ '' there.'' @ [CHR 0x0A]"

text \<open>Lines 31 to 51: the base URL is resolved and written to the globals.\<close>

definition configure :: "platform \<Rightarrow> client_state \<Rightarrow> event list \<times> client_state" where
  "configure p s =
     (let b1 = (if nullish (options_baseUrl s) then mo_baseUrl (MODULE_options s) else options_baseUrl s);
          hasExplicitBaseUrl = truthy b1;
          b2 = (if isWeb p then DEFAULT_BASE_URL p else b1);
          warn = (if \<not> truthy b2 \<and> \<not> (isWeb p \<or> (isExpo p \<and> isDevelopment p))
                  then [ConsoleWarn (NO_BASE_URL_WARN (DEFAULT_BASE_URL p))] else []);
          b3 = (if \<not> truthy b2 then DEFAULT_BASE_URL p else b2)
      in (warn,
          s\<lparr> options_baseUrl := b3,
             axios_baseURL := b3,
             channelOptions := Some
               \<lparr> baseUrl = b3,
                 forceXhrFallback =
                   (enableXhrFallback (MODULE_options s) \<noteq> JBool False
                    \<and> (isDevelopment p \<or> (isExpo p \<and> \<not> isWeb p \<and> \<not> hasExplicitBaseUrl))) \<rparr> \<rparr>))"

text \<open>The loop over \<open>options.plugins || []\<close>: a deprecation message, then the plugin.\<close>

fun run_plugins :: "effect list \<Rightarrow> client_state \<Rightarrow> error option \<times> client_state \<times> event list" where
  "run_plugins [] s = (None, s, [])"
| "run_plugins (plugin # plugins) s =
     (let msg = ConsoleErrorMsg ''DEPRECATED: Passing plugins to init() is deprecated. Use new plugins system instead'' in
      case plugin s of
        (Some e, s') \<Rightarrow> (Some e, s', [msg])
      | (None, s') \<Rightarrow>
          (case run_plugins plugins s' of (r, s'', evs) \<Rightarrow> (r, s'', msg # evs)))"

text \<open>
  The default export. The answer is the exception that ended the call, if any, the
  state at that moment and what the call itself printed and invoked; \<open>connectModel\<close>
  is its last action and belongs to another module.
\<close>

definition init :: "platform \<Rightarrow> effect \<Rightarrow> effect list \<Rightarrow> client_state \<Rightarrow> error option \<times> client_state \<times> event list" where
  "init p commonInit plugins s =
     (case configure p s of
        (warn, s1) \<Rightarrow>
          (case commonInit s1 of
             (Some e, s2) \<Rightarrow> (Some e, s2, warn)
           | (None, s2) \<Rightarrow>
               (case run_plugins plugins s2 of
                  (Some e, s3, evs) \<Rightarrow> (Some e, s3, warn @ evs)
                | (None, s3, evs) \<Rightarrow>
                    if truthy (enableServer (MODULE_options s3)) \<or> truthy (enableConnection (MODULE_options s3))
                    then (None, s3, warn @ evs @ [ConnectModel])
                    else (None, s3, warn @ evs))))"

text \<open>
  The precedence as the specification words it, to compare with \<open>configure\<close>: in a
  browser the platform default; otherwise the explicit option if it is given, else the
  module configuration if it is given, else the platform default. What counts as given
  (any value but \<open>undefined\<close> and \<open>null\<close>, or any truthy value) is a parameter.
\<close>

definition not_nullish :: "jsval \<Rightarrow> bool" where
  "not_nullish v = (\<not> nullish v)"

definition precedence_baseUrl :: "(jsval \<Rightarrow> bool) \<Rightarrow> platform \<Rightarrow> client_state \<Rightarrow> jsval" where
  "precedence_baseUrl given p s =
     (if isWeb p then DEFAULT_BASE_URL p
      else if given (options_baseUrl s) then options_baseUrl s
      else if given (mo_baseUrl (MODULE_options s)) then mo_baseUrl (MODULE_options s)
      else DEFAULT_BASE_URL p)"

section \<open>An example installation\<close>

text \<open>
  Concrete inputs on which the theorems below are run: a project at \<open>/srv/app\<close> whose
  manifest is the one of the specification's example,
  \<open>{ "app": { "js": "app.abc123.js" } }\<close>, and a second project at \<open>/srv/other\<close>.
\<close>

definition example_manifest :: jsval where
  "example_manifest = JObj 1 [(''app'', JObj 2 [(''js'', JStr ''app.abc123.js'')])]"

definition other_manifest :: jsval where
  "other_manifest = JObj 3 [(''app'', JObj 4 [(''js'', JStr ''app.ffff00.js'')])]"

definition production_world :: world where
  "production_world =
     \<lparr> NODE_ENV = Some ''production'', DEVSERVER_URL = None, DEV_PORT = None,
       require = (\<lambda>p. if p = ''/srv/app/build/client/assets.json'' then Some example_manifest
                       else if p = ''/srv/other/build/client/assets.json'' then Some other_manifest
                       else None),
       existsSync = (\<lambda>p. p = ''/srv/app/build/client/app.css''),
       readFileSync = (\<lambda>p. if p = ''/srv/app/build/client/app.css'' then Some ''body{}'' else None) \<rparr>"

definition development_world :: world where
  "development_world = production_world\<lparr>NODE_ENV := Some ''development''\<rparr>"

text \<open>
  Three more installations in production mode: one whose manifest cannot be loaded,
  one whose manifest records a file name without a hash, and one whose manifest has an
  entry for the empty application name.
\<close>

definition no_manifest_world :: world where
  "no_manifest_world = production_world\<lparr>require := (\<lambda>p. None)\<rparr>"

definition malformed_manifest :: jsval where
  "malformed_manifest = JObj 5 [(''app'', JObj 6 [(''js'', JStr ''app.js'')])]"

definition malformed_world :: world where
  "malformed_world = production_world\<lparr>require := (\<lambda>p. Some malformed_manifest)\<rparr>"

definition unnamed_manifest :: jsval where
  "unnamed_manifest = JObj 8 [([], JObj 9 [(''js'', JStr ''app.abc123.js'')])]"

definition unnamed_world :: world where
  "unnamed_world = production_world\<lparr>require := (\<lambda>p. Some unnamed_manifest)\<rparr>"




definition fresh_state :: rm_state where
  "fresh_state =
     load_module \<lparr> env_PROJECT_PATH = Some ''/srv/app'', env_BUILD_CLIENT_PATH = None, cwd = ''/'' \<rparr>"

text \<open>
  A client on a native platform and one in a browser, with a module configuration that
  names a base URL and enables the server; \<open>no_effect\<close> stands for an external routine
  that returns without touching the state.
\<close>

definition no_effect :: effect where
  "no_effect s = (None, s)"

definition native_platform :: platform where
  "native_platform =
     \<lparr> DEFAULT_BASE_URL = JStr ''http://localhost:3000'', isDevelopment = False, isExpo = False,
       isWeb = False \<rparr>"

definition web_platform :: platform where
  "web_platform = native_platform\<lparr>isWeb := True\<rparr>"

definition example_client :: client_state where
  "example_client =
     \<lparr> options_baseUrl = JUndefined,
       MODULE_options =
         \<lparr> mo_baseUrl = JStr ''https://config.example'', enableXhrFallback = JUndefined,
           enableServer = JBool True, enableConnection = JUndefined \<rparr>,
       axios_baseURL = JUndefined,
       channelOptions = None \<rparr>"

section \<open>Caches only grow\<close>

lemma extends_refl: "extends s s"
  by (simp add: extends_def)

lemma extends_trans: "extends s t \<Longrightarrow> extends t u \<Longrightarrow> extends s u"
  unfolding extends_def by (metis map_le_trans)

lemma extends_PROJECT_PATH_update: "extends s (s\<lparr>PROJECT_PATH := p\<rparr>)"
  by (simp add: extends_def)

lemma extends_console_update: "extends s (s\<lparr>console := c\<rparr>)"
  by (simp add: extends_def)

lemma extends_resourcePathCache:
  "extends s s' \<Longrightarrow> resourcePathCache s k = Some v \<Longrightarrow> resourcePathCache s' k = Some v"
  by (auto simp: extends_def map_le_def dom_def)

lemma extends_hashCache:
  "extends s s' \<Longrightarrow> hashCache s k = Some v \<Longrightarrow> hashCache s' k = Some v"
  by (auto simp: extends_def map_le_def dom_def)

lemma map_le_upd_fresh: "m k = None \<Longrightarrow> m \<subseteq>\<^sub>m m(k \<mapsto> v)"
  by (auto simp: map_le_def)

lemma getHash_func_frame:
  assumes "getHash_func w args s = (r, s')"
  shows "BUILD_CLIENT_PATH s' = BUILD_CLIENT_PATH s \<and> resourcePathCache s' = resourcePathCache s
         \<and> hashCache s' = hashCache s \<and> stylesCache s' = stylesCache s"
  using assms
  by (auto simp: getHash_func_def Let_def split: if_splits sum.splits option.splits jsval.splits)

lemma getHash_frame:
  assumes "getHash w args s = (r, s')"
  shows "BUILD_CLIENT_PATH s' = BUILD_CLIENT_PATH s \<and> resourcePathCache s' = resourcePathCache s
         \<and> stylesCache s' = stylesCache s"
proof (cases "hashCache s (key_of (arg 0 args))")
  case (Some v)
  with assms show ?thesis by (simp add: getHash_def memoize_def)
next
  case None
  obtain r1 s1 where f: "getHash_func w args s = (r1, s1)" by (cases "getHash_func w args s")
  with assms None getHash_func_frame [OF f] show ?thesis
    by (cases r1) (auto simp: getHash_def memoize_def)
qed

lemma getHash_extends:
  assumes "getHash w args s = (r, s')"
  shows "extends s s'"
proof (cases "hashCache s (key_of (arg 0 args))")
  case (Some v)
  with assms show ?thesis by (simp add: getHash_def memoize_def extends_refl)
next
  case None
  obtain r1 s1 where f: "getHash_func w args s = (r1, s1)" by (cases "getHash_func w args s")
  note fr = getHash_func_frame [OF f]
  show ?thesis
  proof (cases r1)
    case (Inl e)
    with assms None f have "s' = s1" by (simp add: getHash_def memoize_def)
    with fr show ?thesis by (simp add: extends_def)
  next
    case (Inr v)
    with assms None f have "s' = s1\<lparr>hashCache := (hashCache s1)(key_of (arg 0 args) \<mapsto> v)\<rparr>"
      by (simp add: getHash_def memoize_def)
    with fr None show ?thesis by (simp add: extends_def map_le_upd_fresh)
  qed
qed

lemma getHash_stored:
  assumes "getHash w args s = (Inr v, s')"
  shows "hashCache s' (key_of (arg 0 args)) = Some v"
  using assms
  by (auto simp: getHash_def memoize_def split: option.splits prod.splits sum.splits)

lemma getResourcePath_func_frame:
  assumes "getResourcePath_func w args s = (r, s')"
  shows "BUILD_CLIENT_PATH s' = BUILD_CLIENT_PATH s \<and> resourcePathCache s' = resourcePathCache s"
  using assms
  by (auto simp: getResourcePath_func_def Let_def
           split: if_splits sum.splits prod.splits dest: getHash_frame)

lemma getResourcePath_func_extends:
  assumes "getResourcePath_func w args s = (r, s')"
  shows "extends s s'"
  using assms
  by (auto simp: getResourcePath_func_def Let_def extends_refl
           split: if_splits sum.splits prod.splits intro: getHash_extends)

lemma getResourcePath_extends:
  assumes "getResourcePath w args s = (r, s')"
  shows "extends s s'"
proof (cases "resourcePathCache s (stringify_args args)")
  case (Some v)
  with assms show ?thesis by (simp add: getResourcePath_def memoize_def extends_refl)
next
  case None
  obtain r1 s1 where f: "getResourcePath_func w args s = (r1, s1)"
    by (cases "getResourcePath_func w args s")
  note ex = getResourcePath_func_extends [OF f]
  show ?thesis
  proof (cases r1)
    case (Inl e)
    with assms None f have "s' = s1" by (simp add: getResourcePath_def memoize_def)
    with ex show ?thesis by simp
  next
    case (Inr v)
    with assms None f
    have s': "s' = s1\<lparr>resourcePathCache := (resourcePathCache s1)(stringify_args args \<mapsto> v)\<rparr>"
      by (simp add: getResourcePath_def memoize_def)
    have "resourcePathCache s \<subseteq>\<^sub>m (resourcePathCache s1)(stringify_args args \<mapsto> v)"
      using ex None by (auto simp: extends_def map_le_def dom_def)
    with ex s' show ?thesis by (simp add: extends_def)
  qed
qed

lemma getResourcePath_stored:
  assumes "getResourcePath w args s = (Inr v, s')"
  shows "resourcePathCache s' (stringify_args args) = Some v"
  using assms
  by (auto simp: getResourcePath_def memoize_def split: option.splits prod.splits sum.splits)

lemma getProductionStyles_func_shape:
  assumes "getProductionStyles_func w args s = (r, s')"
  shows "s' = s
    \<or> (\<exists>p r2 s2. getResourcePath w [JStr ''style'', arg 0 args, default_options (arg 1 args)]
                    (s\<lparr>PROJECT_PATH := p\<rparr>) = (r2, s2)
          \<and> (s' = s2 \<or> (\<exists>c. s' = s2\<lparr>console := c\<rparr>)))"
proof (cases "js_get (default_options (arg 1 args)) ''PROJECT_PATH''")
  case (Inl e)
  with assms show ?thesis by (simp add: getProductionStyles_func_def Let_def)
next
  case (Inr p)
  obtain r2 s2 where g:
    "getResourcePath w [JStr ''style'', arg 0 args, default_options (arg 1 args)]
       (s\<lparr>PROJECT_PATH := js_or p (PROJECT_PATH s)\<rparr>) = (r2, s2)"
    by (cases "getResourcePath w [JStr ''style'', arg 0 args, default_options (arg 1 args)]
                 (s\<lparr>PROJECT_PATH := js_or p (PROJECT_PATH s)\<rparr>)")
  have "s' = s2 \<or> (\<exists>c. s' = s2\<lparr>console := c\<rparr>)"
    using assms Inr g
    by (auto simp: getProductionStyles_func_def Let_def split: sum.splits if_splits option.splits)
  with g show ?thesis by blast
qed

lemma getProductionStyles_func_extends:
  assumes "getProductionStyles_func w args s = (r, s')"
  shows "extends s s'"
  using getProductionStyles_func_shape [OF assms]
  by (auto intro: extends_refl extends_trans [OF extends_PROJECT_PATH_update]
                  extends_trans [OF _ extends_console_update] getResourcePath_extends)

lemma getProductionStyles_extends:
  assumes "getProductionStyles w args s = (r, s')"
  shows "extends s s'"
proof (cases "stylesCache s (key_of (arg 0 args))")
  case (Some v)
  with assms show ?thesis by (simp add: getProductionStyles_def memoize_def extends_refl)
next
  case None
  obtain r1 s1 where f: "getProductionStyles_func w args s = (r1, s1)"
    by (cases "getProductionStyles_func w args s")
  note ex = getProductionStyles_func_extends [OF f]
  show ?thesis
  proof (cases r1)
    case (Inl e)
    with assms None f have "s' = s1" by (simp add: getProductionStyles_def memoize_def)
    with ex show ?thesis by simp
  next
    case (Inr v)
    with assms None f
    have s': "s' = s1\<lparr>stylesCache := (stylesCache s1)(key_of (arg 0 args) \<mapsto> v)\<rparr>"
      by (simp add: getProductionStyles_def memoize_def)
    have "stylesCache s \<subseteq>\<^sub>m (stylesCache s1)(key_of (arg 0 args) \<mapsto> v)"
      using ex None by (auto simp: extends_def map_le_def dom_def)
    with ex s' show ?thesis by (simp add: extends_def)
  qed
qed

lemma step_extends: "extends s (snd (step w c s))"
  by (cases c)
     (auto intro: getResourcePath_extends getHash_extends getProductionStyles_extends
           simp: prod_eq_iff)

lemma run_extends: "extends s (run cs s)"
proof (induction cs arbitrary: s)
  case Nil
  show ?case by (simp add: extends_refl)
next
  case (Cons wc cs)
  obtain w c where wc: "wc = (w, c)" by (cases wc)
  show ?case
    using extends_trans [OF step_extends Cons.IH] by (simp add: wc)
qed

section \<open>Running the example\<close>

lemma fresh_state_fields:
  "PROJECT_PATH fresh_state = JStr ''/srv/app''"
  "BUILD_CLIENT_PATH fresh_state = ''/build/client/''"
  "resourcePathCache fresh_state = Map.empty"
  "hashCache fresh_state = Map.empty"
  "stylesCache fresh_state = Map.empty"
  "console fresh_state = []"
  by (simp_all add: fresh_state_def load_module_def js_or_def env_value_def)

lemma example_assets_path:
  "path_join [JStr ''/srv/app'', JStr ''/build/client/'', JStr ''assets.json'']
     = Inr ''/srv/app/build/client/assets.json''"
  by (simp add: path_join_def path_normalize_def Let_def)

lemma example_hash_match: "hash_match ''app.abc123.js'' = Some ''abc123''"
  by (simp add: match_here_def)

lemma example_getHash_func:
  "fst (getHash_func production_world [JStr ''app'', JStr ''bundle''] fresh_state) = Inr (JStr ''abc123'')"
  by (simp add: getHash_func_def production_world_def fresh_state_fields arg_def default_options_def
        js_or_def example_assets_path example_manifest_def manifest_entry_def example_hash_match
        Let_def del: hash_match.simps)

lemma example_getHash:
  "fst (getHash production_world [JStr ''app'', JStr ''bundle''] fresh_state) = Inr (JStr ''abc123'')"
proof -
  have "hashCache fresh_state (key_of (arg 0 [JStr ''app'', JStr ''bundle''])) = None"
    by (simp add: fresh_state_fields)
  with example_getHash_func show ?thesis
    by (cases "getHash_func production_world [JStr ''app'', JStr ''bundle''] fresh_state")
       (auto simp: getHash_def memoize_def)
qed

section \<open>The serialized argument tuple\<close>

text \<open>
  A string argument can be read back from the key: the serialization of any other value
  does not start with a double quote, and the escaped characters of a string form a
  prefix code that never produces a bare double quote.
\<close>

lemma nat_digits_head: "nat_digits n \<noteq> [] \<and> hd (nat_digits n) \<in> set ''0123456789''"
proof (induction n rule: nat_digits.induct)
  case (1 n)
  show ?case
  proof (cases "n < 10")
    case True
    then have "nat_digits n = [digit_char n]" by (simp add: nat_digits.simps)
    moreover have "digit_char n \<in> set ''0123456789''"
      unfolding digit_char_def by (rule nth_mem) simp
    ultimately show ?thesis by simp
  next
    case False
    then have "nat_digits n = nat_digits (n div 10) @ [digit_char (n mod 10)]"
      by (subst nat_digits.simps) simp
    with 1 False show ?thesis by simp
  qed
qed

lemma number_to_string_head:
  "number_to_string n \<noteq> [] \<and> hd (number_to_string n) \<noteq> dq"
  using nat_digits_head [of "nat (Rep_safe_int n)"] nat_digits_head [of "nat (- Rep_safe_int n)"]
  by (auto simp: number_to_string_def dq_def)

lemma json_element_not_string:
  assumes "\<forall>t. x \<noteq> JStr t"
  shows "json_element x \<noteq> [] \<and> hd (json_element x) \<noteq> dq"
  using assms number_to_string_head
  by (cases x) (auto simp: json_element_def dq_def)

lemma json_escape_char_head:
  "json_escape_char c \<noteq> [] \<and> hd (json_escape_char c) \<noteq> dq"
  by (auto simp: json_escape_char_def dq_def bsl_def)

lemma hex_char_inj: "a < 16 \<Longrightarrow> b < 16 \<Longrightarrow> hex_char a = hex_char b \<Longrightarrow> a = b"
  by (simp add: hex_char_def nth_eq_iff_index_eq)

lemma hex_pair_inj:
  assumes "m < 32" "n < 32"
    and "hex_char (m div 16) = hex_char (n div 16)"
    and "hex_char (m mod 16) = hex_char (n mod 16)"
  shows "m = n"
proof -
  have "m div 16 = n div 16"
    using assms(1,2,3) by (intro hex_char_inj) auto
  moreover have "m mod 16 = n mod 16"
    using assms(4) by (intro hex_char_inj) auto
  ultimately show ?thesis by (metis div_mult_mod_eq)
qed

lemma json_escape_char_prefix:
  assumes "json_escape_char c @ r = json_escape_char c' @ r'"
  shows "c = c' \<and> r = r'"
proof -
  have u: "(of_char c :: nat) < 32 \<Longrightarrow> (of_char c' :: nat) < 32
      \<Longrightarrow> hex_char (of_char c div 16) = hex_char (of_char c' div 16)
      \<Longrightarrow> hex_char (of_char c mod 16) = hex_char (of_char c' mod 16) \<Longrightarrow> c = c'"
    using hex_pair_inj [of "of_char c" "of_char c'"] by simp
  show ?thesis
    using assms u
    by (auto simp: json_escape_char_def dq_def bsl_def split: if_splits)
qed

lemma json_escape_unique:
  assumes "json_escape s @ dq # r = json_escape t @ dq # r'"
  shows "s = t \<and> r = r'"
  using assms
proof (induction s arbitrary: t)
  case Nil
  show ?case
  proof (cases t)
    case Nil
    with Nil.prems show ?thesis by simp
  next
    case (Cons c cs)
    with Nil.prems json_escape_char_head [of c] show ?thesis
      by (cases "json_escape_char c") auto
  qed
next
  case (Cons c cs)
  show ?case
  proof (cases t)
    case Nil
    with Cons.prems json_escape_char_head [of c] show ?thesis
      by (cases "json_escape_char c") auto
  next
    case (Cons d ds)
    with Cons.prems
    have "json_escape_char c @ (json_escape cs @ dq # r) = json_escape_char d @ (json_escape ds @ dq # r')"
      by simp
    from json_escape_char_prefix [OF this]
    have "c = d" and "json_escape cs @ dq # r = json_escape ds @ dq # r'" by simp_all
    with Cons.IH [of ds] Cons show ?thesis by simp
  qed
qed

lemma json_element_quote:
  assumes "json_element x @ r = json_quote t @ r'"
  shows "x = JStr t \<and> r = r'"
proof (cases "\<exists>u. x = JStr u")
  case True
  then obtain u where u: "x = JStr u" ..
  with assms have "json_escape u @ dq # r = json_escape t @ dq # r'"
    by (simp add: json_element_def json_quote_def)
  from json_escape_unique [OF this] u show ?thesis by simp
next
  case False
  then have "json_element x \<noteq> [] \<and> hd (json_element x) \<noteq> dq"
    using json_element_not_string by blast
  with assms show ?thesis
    by (cases "json_element x") (auto simp: json_quote_def)
qed

lemma stringify_args_head:
  assumes "stringify_args args = stringify_args (JStr t # rest)"
  shows "\<exists>rest'. args = JStr t # rest' \<and> json_array_tail rest' = json_array_tail rest"
proof (cases args)
  case Nil
  with assms show ?thesis by (simp add: json_element_def json_quote_def dq_def)
next
  case (Cons x xs)
  with assms have "json_element x @ json_array_tail xs = json_quote t @ json_array_tail rest"
    by (simp add: json_element_def)
  from json_element_quote [OF this] Cons show ?thesis by simp
qed

lemma json_array_tail_head:
  assumes "json_array_tail xs = json_array_tail (JStr a # rest)"
  shows "\<exists>rest'. xs = JStr a # rest' \<and> json_array_tail rest' = json_array_tail rest"
proof (cases xs)
  case Nil
  with assms show ?thesis by simp
next
  case (Cons y ys)
  with assms have "json_element y @ json_array_tail ys = json_quote a @ json_array_tail rest"
    by (simp add: json_element_def)
  from json_element_quote [OF this] Cons show ?thesis by simp
qed











































section \<open>Memoization\<close>

text \<open>
  Claim C1. Once a call of \<open>getResourcePath\<close> has returned a URL, every later call with
  the same arguments returns that URL, whatever calls of the module came in between,
  and does so from the cache: the state is left as it was (nothing is recomputed, looked
  up or printed) and the world of the later call is not consulted (so the answer is the
  same under a fixed process environment in particular). The key is
  \<open>JSON.stringify\<close> of the argument tuple: the arguments of the later call need only
  serialize to the same string.
\<close>

theorem getResourcePath_repeat:
  assumes "getResourcePath w args s = (Inr url, s1)"
    and "stringify_args args' = stringify_args args"
  shows "getResourcePath w' args' (run cs s1) = (Inr url, run cs s1)"
proof -
  have "resourcePathCache (run cs s1) (stringify_args args) = Some url"
    using extends_resourcePathCache [OF run_extends getResourcePath_stored [OF assms(1)]] .
  with assms(2) show ?thesis by (simp add: getResourcePath_def memoize_def)
qed

theorem getResourcePath_repeat_witness:
  "fst (getResourcePath development_world [JStr ''style'', JStr ''app''] fresh_state)
     = Inr (JStr ''/build/client/app.css'')
   \<and> fst (getResourcePath development_world [JStr ''style'', JStr ''app'']
        (run [(production_world, GetHash [JStr ''app'', JStr ''bundle''])]
           (snd (getResourcePath development_world [JStr ''style'', JStr ''app''] fresh_state))))
     = Inr (JStr ''/build/client/app.css'')"
proof -
  have 1: "fst (getResourcePath development_world [JStr ''style'', JStr ''app''] fresh_state)
            = Inr (JStr ''/build/client/app.css'')"
    by (simp add: getResourcePath_def memoize_def getResourcePath_func_def fresh_state_fields
          arg_def Let_def split: prod.splits)
  then have "getResourcePath development_world [JStr ''style'', JStr ''app''] fresh_state
      = (Inr (JStr ''/build/client/app.css''),
         snd (getResourcePath development_world [JStr ''style'', JStr ''app''] fresh_state))"
    by (simp add: prod_eq_iff)
  from getResourcePath_repeat [OF this refl, of development_world
      "[(production_world, GetHash [JStr ''app'', JStr ''bundle''])]"] 1
  show ?thesis by simp
qed

text \<open>
  Claim C9. \<open>getHash\<close> is memoized on its first argument alone. Once a call has
  returned a result, every later call whose first argument is the same cache key returns
  that result and leaves the state as it was, whatever its type and options are and
  whatever the world is by then. In the example, after \<open>getHash('app', 'bundle')\<close> has
  returned \<open>abc123\<close>, the call \<open>getHash('app', 'style')\<close> returns \<open>abc123\<close> too, where
  the function itself would throw for the unknown type.
\<close>

theorem getHash_first_argument_key:
  assumes "getHash w args s = (Inr h, s1)"
    and "key_of (arg 0 args') = key_of (arg 0 args)"
  shows "getHash w' args' (run cs s1) = (Inr h, run cs s1)"
proof -
  have "hashCache (run cs s1) (key_of (arg 0 args)) = Some h"
    using extends_hashCache [OF run_extends getHash_stored [OF assms(1)]] .
  with assms(2) show ?thesis by (simp add: getHash_def memoize_def)
qed

theorem getHash_first_argument_key_witness:
  "fst (getHash production_world [JStr ''app'', JStr ''bundle''] fresh_state) = Inr (JStr ''abc123'')
   \<and> fst (getHash production_world [JStr ''app'', JStr ''style'', JObj 7 [(''PROJECT_PATH'', JStr ''/srv/other'')]]
        (run [] (snd (getHash production_world [JStr ''app'', JStr ''bundle''] fresh_state))))
     = Inr (JStr ''abc123'')"
proof -
  have "getHash production_world [JStr ''app'', JStr ''bundle''] fresh_state
      = (Inr (JStr ''abc123''), snd (getHash production_world [JStr ''app'', JStr ''bundle''] fresh_state))"
    using example_getHash by (simp add: prod_eq_iff)
  from getHash_first_argument_key [OF this, of "[JStr ''app'', JStr ''style'', JObj 7 [(''PROJECT_PATH'', JStr ''/srv/other'')]]" production_world "[]"]
    example_getHash
  show ?thesis by (simp add: arg_def)
qed

section \<open>What the cache of \<open>getResourcePath\<close> holds\<close>

lemma cache_inv_frame:
  "cache_inv s \<Longrightarrow> resourcePathCache s' = resourcePathCache s
     \<Longrightarrow> BUILD_CLIENT_PATH s' = BUILD_CLIENT_PATH s \<Longrightarrow> cache_inv s'"
  by (simp add: cache_inv_def)

lemma getResourcePath_func_result:
  assumes "getResourcePath_func w args s = (Inr v, s')"
  shows "arg 0 args = JStr ''bundle''
     \<or> arg 0 args = JStr ''style'' \<and> v = JStr (BUILD_CLIENT_PATH s @ to_string (arg 1 args) @ ''.css'')"
  using assms by (auto simp: getResourcePath_func_def Let_def split: if_splits)

lemma getResourcePath_cache_inv:
  assumes "cache_inv s" and "getResourcePath w args s = (r, s')"
  shows "cache_inv s'"
proof (cases "resourcePathCache s (stringify_args args)")
  case (Some v)
  with assms show ?thesis by (simp add: getResourcePath_def memoize_def)
next
  case None
  obtain r1 s1 where f: "getResourcePath_func w args s = (r1, s1)"
    by (cases "getResourcePath_func w args s")
  note fr = getResourcePath_func_frame [OF f]
  have inv1: "cache_inv s1"
    using cache_inv_frame [OF assms(1)] fr by simp
  show ?thesis
  proof (cases r1)
    case (Inl e)
    with assms None f have "s' = s1" by (simp add: getResourcePath_def memoize_def)
    with inv1 show ?thesis by simp
  next
    case (Inr v)
    with assms None f
    have s': "s' = s1\<lparr>resourcePathCache := (resourcePathCache s1)(stringify_args args \<mapsto> v)\<rparr>"
      by (simp add: getResourcePath_def memoize_def)
    from getResourcePath_func_result [OF f [unfolded Inr]] fr
    have new: "arg 0 args = JStr ''bundle''
       \<or> arg 0 args = JStr ''style'' \<and> v = JStr (BUILD_CLIENT_PATH s1 @ to_string (arg 1 args) @ ''.css'')"
      by simp
    show ?thesis
      unfolding cache_inv_def
    proof (intro allI impI)
      fix k u
      assume "resourcePathCache s' k = Some u"
      then have "k = stringify_args args \<and> u = v \<or> resourcePathCache s1 k = Some u"
        by (auto simp: s' split: if_splits)
      then show "\<exists>args. k = stringify_args args
           \<and> (arg 0 args = JStr ''bundle''
              \<or> arg 0 args = JStr ''style''
                \<and> u = JStr (BUILD_CLIENT_PATH s' @ to_string (arg 1 args) @ ''.css''))"
      proof
        assume "k = stringify_args args \<and> u = v"
        with new show ?thesis by (auto simp: s')
      next
        assume "resourcePathCache s1 k = Some u"
        with inv1 show ?thesis by (simp add: cache_inv_def s')
      qed
    qed
  qed
qed

lemma getHash_cache_inv:
  assumes "cache_inv s" and "getHash w args s = (r, s')"
  shows "cache_inv s'"
  using cache_inv_frame [OF assms(1)] getHash_frame [OF assms(2)] by simp

lemma getProductionStyles_func_cache_inv:
  assumes "cache_inv s" and "getProductionStyles_func w args s = (r, s')"
  shows "cache_inv s'"
proof -
  have pp: "cache_inv (s\<lparr>PROJECT_PATH := p\<rparr>)" for p
    using cache_inv_frame [OF assms(1)] by simp
  have con: "cache_inv t \<Longrightarrow> cache_inv (t\<lparr>console := c\<rparr>)" for t c
    by (rule cache_inv_frame) simp_all
  from getProductionStyles_func_shape [OF assms(2)] assms(1) show ?thesis
    by (auto intro: getResourcePath_cache_inv [OF pp] con)
qed

lemma getProductionStyles_cache_inv:
  assumes "cache_inv s" and "getProductionStyles w args s = (r, s')"
  shows "cache_inv s'"
proof (cases "stylesCache s (key_of (arg 0 args))")
  case (Some v)
  with assms show ?thesis by (simp add: getProductionStyles_def memoize_def)
next
  case None
  obtain r1 s1 where f: "getProductionStyles_func w args s = (r1, s1)"
    by (cases "getProductionStyles_func w args s")
  note inv1 = getProductionStyles_func_cache_inv [OF assms(1) f]
  have "s' = s1 \<or> (\<exists>c. s' = s1\<lparr>stylesCache := c\<rparr>)"
    using assms(2) None f by (cases r1) (auto simp: getProductionStyles_def memoize_def)
  then show ?thesis
    using inv1 by (auto intro: cache_inv_frame)
qed

lemma step_cache_inv: "cache_inv s \<Longrightarrow> cache_inv (snd (step w c s))"
  by (cases c)
     (auto intro: getResourcePath_cache_inv getHash_cache_inv getProductionStyles_cache_inv
           simp: prod_eq_iff)

lemma run_cache_inv: "cache_inv s \<Longrightarrow> cache_inv (run cs s)"
proof (induction cs arbitrary: s)
  case Nil
  then show ?case by simp
next
  case (Cons wc cs)
  obtain w c where wc: "wc = (w, c)" by (cases wc)
  show ?case
    using Cons.IH [OF step_cache_inv [OF Cons.prems]] by (simp add: wc)
qed

lemma load_module_cache_inv: "cache_inv (load_module le)"
  by (simp add: cache_inv_def load_module_def)


lemma arg_0_Cons: "arg 0 (x # xs) = x"
  by (simp add: arg_def)

lemma arg_0_JStr: "arg 0 args = JStr t \<Longrightarrow> \<exists>rest. args = JStr t # rest"
  by (cases args) (auto simp: arg_def)


lemma unknown_type_not_cached:
  assumes "cache_inv s" and "arg 0 args \<noteq> JStr ''bundle''" and "arg 0 args \<noteq> JStr ''style''"
  shows "resourcePathCache s (stringify_args args) = None"
proof (rule ccontr)
  assume "resourcePathCache s (stringify_args args) \<noteq> None"
  then obtain v where "resourcePathCache s (stringify_args args) = Some v" by blast
  with assms(1) obtain args' where k: "stringify_args args = stringify_args args'"
    and d: "arg 0 args' = JStr ''bundle'' \<or> arg 0 args' = JStr ''style''"
    unfolding cache_inv_def by metis
  from d obtain t rest where t: "args' = JStr t # rest" "t = ''bundle'' \<or> t = ''style''"
    using arg_0_JStr by blast
  from stringify_args_head [OF k [unfolded t(1)]] have "arg 0 args = JStr t"
    by (auto simp: arg_def)
  with t(2) assms(2,3) show False by blast
qed

lemma getResourcePath_miss:
  "resourcePathCache s (stringify_args args) = None
     \<Longrightarrow> fst (getResourcePath w args s) = fst (getResourcePath_func w args s)"
  by (auto simp: getResourcePath_def memoize_def split: prod.splits sum.splits)






text \<open>
  Claim C6. For every argument list whose type is neither \<open>'bundle'\<close> nor \<open>'style'\<close>
  (any other value, or none), in every state the module can reach from its load and in
  every world, \<open>getResourcePath\<close> throws the error \<open>No resource found for '<type>'\<close>;
  it returns no URL and changes nothing.
\<close>

theorem getResourcePath_unknown_type:
  assumes "arg 0 args \<noteq> JStr ''bundle''" and "arg 0 args \<noteq> JStr ''style''"
  shows "getResourcePath w args (run cs (load_module le))
     = (Inl (Error (''No resource found for '' @ [sq] @ to_string (arg 0 args) @ [sq])),
        run cs (load_module le))"
proof -
  have "resourcePathCache (run cs (load_module le)) (stringify_args args) = None"
    using unknown_type_not_cached [OF run_cache_inv [OF load_module_cache_inv] assms] .
  with assms show ?thesis
    by (simp add: getResourcePath_def memoize_def getResourcePath_func_def Let_def)
qed

theorem getResourcePath_unknown_type_witness:
  "getResourcePath production_world [JStr ''script'', JStr ''app'']
       (run [(production_world, GetResourcePath [JStr ''style'', JStr ''app''])] fresh_state)
     = (Inl (Error (''No resource found for '' @ [sq] @ ''script'' @ [sq])),
        run [(production_world, GetResourcePath [JStr ''style'', JStr ''app''])] fresh_state)"
proof -
  have "arg 0 [JStr ''script'', JStr ''app''] \<noteq> JStr ''bundle''"
    and "arg 0 [JStr ''script'', JStr ''app''] \<noteq> JStr ''style''"
    by (simp_all add: arg_def)
  from getResourcePath_unknown_type [OF this, of production_world
      "[(production_world, GetResourcePath [JStr ''style'', JStr ''app''])]"
      "\<lparr> env_PROJECT_PATH = Some ''/srv/app'', env_BUILD_CLIENT_PATH = None, cwd = ''/'' \<rparr>"]
  show ?thesis by (simp add: fresh_state_def [symmetric] arg_def)
qed

section \<open>The hash of a bundle\<close>

text \<open>
  The pattern finds a hash exactly in the file names \<open>name.hash.js\<close> whose hash is not
  empty and has no dot, and the hash it finds is that one.
\<close>

lemma match_here_iff:
  "match_here t = Some h \<longleftrightarrow> t = ''.'' @ h @ ''.js'' \<and> h \<noteq> [] \<and> CHR ''.'' \<notin> set h"
proof
  assume m: "match_here t = Some h"
  then obtain u where t: "t = CHR ''.'' # u"
    and h: "takeWhile (\<lambda>x. x \<noteq> CHR ''.'') u = h" "h \<noteq> []"
    and d: "dropWhile (\<lambda>x. x \<noteq> CHR ''.'') u = ''.js''"
    by (auto simp: match_here_def split: list.splits if_splits)
  have "u = h @ ''.js''"
    using takeWhile_dropWhile_id [of "\<lambda>x. x \<noteq> CHR ''.''" u] h(1) d by simp
  moreover have "CHR ''.'' \<notin> set h"
    using h(1) by (auto dest: set_takeWhileD)
  ultimately show "t = ''.'' @ h @ ''.js'' \<and> h \<noteq> [] \<and> CHR ''.'' \<notin> set h"
    using t h(2) by simp
next
  assume a: "t = ''.'' @ h @ ''.js'' \<and> h \<noteq> [] \<and> CHR ''.'' \<notin> set h"
  then have tw: "takeWhile (\<lambda>x. x \<noteq> CHR ''.'') (h @ ''.js'') = h"
    by (subst takeWhile_append2) auto
  from a have dw: "dropWhile (\<lambda>x. x \<noteq> CHR ''.'') (h @ ''.js'') = ''.js''"
    by (subst dropWhile_append2) auto
  from a tw dw show "match_here t = Some h"
    by (simp add: match_here_def)
qed

lemma hash_match_sound:
  "hash_match f = Some h \<Longrightarrow> \<exists>name. f = name @ ''.'' @ h @ ''.js'' \<and> h \<noteq> [] \<and> CHR ''.'' \<notin> set h"
proof (induction f)
  case Nil
  then show ?case by (simp add: match_here_def)
next
  case (Cons c cs)
  show ?case
  proof (cases "match_here (c # cs)")
    case (Some x)
    with Cons.prems have "match_here (c # cs) = Some h" by simp
    then have "c # cs = [] @ ''.'' @ h @ ''.js'' \<and> h \<noteq> [] \<and> CHR ''.'' \<notin> set h"
      by (simp add: match_here_iff)
    then show ?thesis by blast
  next
    case None
    with Cons.prems have "hash_match cs = Some h" by simp
    from Cons.IH [OF this] obtain name where
      "cs = name @ ''.'' @ h @ ''.js'' \<and> h \<noteq> [] \<and> CHR ''.'' \<notin> set h" by blast
    then have "c # cs = (c # name) @ ''.'' @ h @ ''.js'' \<and> h \<noteq> [] \<and> CHR ''.'' \<notin> set h"
      by simp
    then show ?thesis by blast
  qed
qed

lemma match_here_inside:
  assumes "match_here (name @ ''.'' @ h @ ''.js'') = Some x" and "CHR ''.'' \<notin> set h"
  shows "name = [] \<and> x = h"
proof -
  from assms(1) have e: "name @ ''.'' @ h @ ''.js'' = ''.'' @ x @ ''.js''" and x: "CHR ''.'' \<notin> set x"
    by (simp_all add: match_here_iff)
  show ?thesis
  proof (cases name)
    case Nil
    with e show ?thesis by simp
  next
    case (Cons c n')
    with e have "(n' @ ''.'' @ h) @ ''.js'' = x @ ''.js''" by simp
    then have "n' @ ''.'' @ h = x" by (simp only: append_same_eq)
    with x show ?thesis by auto
  qed
qed

lemma hash_match_complete:
  assumes "h \<noteq> []" and "CHR ''.'' \<notin> set h"
  shows "hash_match (name @ ''.'' @ h @ ''.js'') = Some h"
proof (induction name)
  case Nil
  have "match_here (''.'' @ h @ ''.js'') = Some h"
    using assms by (simp add: match_here_iff)
  then show ?case by simp
next
  case (Cons c name)
  show ?case
  proof (cases "match_here ((c # name) @ ''.'' @ h @ ''.js'')")
    case None
    with Cons.IH show ?thesis by simp
  next
    case (Some x)
    from match_here_inside [OF Some assms(2)] show ?thesis by simp
  qed
qed

lemma hash_match_None_iff:
  "hash_match f = None \<longleftrightarrow> \<not> (\<exists>name h. f = name @ ''.'' @ h @ ''.js'' \<and> h \<noteq> [] \<and> CHR ''.'' \<notin> set h)"
proof
  assume n: "hash_match f = None"
  show "\<not> (\<exists>name h. f = name @ ''.'' @ h @ ''.js'' \<and> h \<noteq> [] \<and> CHR ''.'' \<notin> set h)"
  proof
    assume "\<exists>name h. f = name @ ''.'' @ h @ ''.js'' \<and> h \<noteq> [] \<and> CHR ''.'' \<notin> set h"
    then obtain name h where "f = name @ ''.'' @ h @ ''.js''" "h \<noteq> []" "CHR ''.'' \<notin> set h"
      by blast
    with hash_match_complete [of h name] n show False by simp
  qed
next
  assume a: "\<not> (\<exists>name h. f = name @ ''.'' @ h @ ''.js'' \<and> h \<noteq> [] \<and> CHR ''.'' \<notin> set h)"
  show "hash_match f = None"
  proof (cases "hash_match f")
    case None
    then show ?thesis .
  next
    case (Some h)
    from hash_match_sound [OF this] a show ?thesis by blast
  qed
qed

lemma memoize_miss:
  "cache_get s key = None \<Longrightarrow>
     fst (memoize cache_get cache_set key func s) = fst (func s)"
  by (auto simp: memoize_def split: prod.splits sum.splits)

lemma getHash_miss:
  "hashCache s (key_of (arg 0 args)) = None \<Longrightarrow> fst (getHash w args s) = fst (getHash_func w args s)"
  by (simp add: getHash_def memoize_miss)

lemma getHash_func_loaded:
  assumes "NODE_ENV w = Some ''production''" and "truthy (arg 0 args)"
    and "js_get (default_options (arg 2 args)) ''PROJECT_PATH'' = Inr p"
    and "path_join [js_or p (PROJECT_PATH s), JStr (BUILD_CLIENT_PATH s), JStr ''assets.json''] = Inr path"
    and "require w path = Some assetsMeta"
    and "arg 1 args = JStr ''bundle''"
    and "manifest_entry assetsMeta (arg 0 args) = JStr (name @ ''.'' @ h @ ''.js'')"
    and "h \<noteq> []" and "CHR ''.'' \<notin> set h"
  shows "fst (getHash_func w args s) = Inr (JStr h)"
  using assms hash_match_complete [OF assms(8,9), of name]
  by (simp add: getHash_func_def Let_def)

lemma getHash_func_returns:
  assumes "NODE_ENV w = Some ''production''" and "truthy (arg 0 args)"
    and "fst (getHash_func w args s) = Inr v"
  shows "arg 1 args = JStr ''bundle''
    \<and> (\<exists>p path assetsMeta name h.
          js_get (default_options (arg 2 args)) ''PROJECT_PATH'' = Inr p
        \<and> path_join [js_or p (PROJECT_PATH s), JStr (BUILD_CLIENT_PATH s), JStr ''assets.json''] = Inr path
        \<and> require w path = Some assetsMeta
        \<and> manifest_entry assetsMeta (arg 0 args) = JStr (name @ ''.'' @ h @ ''.js'')
        \<and> h \<noteq> [] \<and> CHR ''.'' \<notin> set h \<and> v = JStr h)"
  using assms
  by (auto simp: getHash_func_def Let_def
           split: sum.splits option.splits if_splits jsval.splits dest!: hash_match_sound)

lemma fresh_hash_miss: "hashCache fresh_state k = None"
  by (simp add: fresh_state_fields)

lemma production_world_fields:
  "NODE_ENV production_world = Some ''production''"
  "DEVSERVER_URL production_world = None"
  "DEV_PORT production_world = None"
  "require production_world ''/srv/app/build/client/assets.json'' = Some example_manifest"
  "require production_world ''/srv/other/build/client/assets.json'' = Some other_manifest"
  by (simp_all add: production_world_def)

lemma development_world_fields:
  "NODE_ENV development_world = Some ''development''"
  "DEVSERVER_URL development_world = None"
  "DEV_PORT development_world = None"
  by (simp_all add: development_world_def production_world_def)

lemma example_manifest_entry:
  "manifest_entry example_manifest (JStr ''app'') = JStr (''app'' @ ''.'' @ ''abc123'' @ ''.js'')"
  by (simp add: manifest_entry_def example_manifest_def)

lemma default_project_path:
  "js_get (default_options (arg 0 [])) ''PROJECT_PATH'' = Inr JUndefined"
  "js_get (default_options (arg 2 [a, b])) ''PROJECT_PATH'' = Inr JUndefined"
  "js_or JUndefined v = v"
  by (simp_all add: arg_def default_options_def js_or_def)

lemma no_manifest_world_fields:
  "NODE_ENV no_manifest_world = Some ''production''"
  "require no_manifest_world p = None"
  by (simp_all add: no_manifest_world_def production_world_def)

lemma malformed_world_fields:
  "NODE_ENV malformed_world = Some ''production''"
  "require malformed_world p = Some malformed_manifest"
  by (simp_all add: malformed_world_def production_world_def)

lemma malformed_entry:
  "\<not> (\<exists>name h. manifest_entry malformed_manifest (JStr ''app'') = JStr (name @ ''.'' @ h @ ''.js'')
          \<and> h \<noteq> [] \<and> CHR ''.'' \<notin> set h)"
proof -
  have "hash_match ''app.js'' = None" by (simp add: match_here_def)
  then have "\<not> (\<exists>name h. ''app.js'' = name @ ''.'' @ h @ ''.js'' \<and> h \<noteq> [] \<and> CHR ''.'' \<notin> set h)"
    unfolding hash_match_None_iff .
  moreover have "manifest_entry malformed_manifest (JStr ''app'') = JStr ''app.js''"
    by (simp add: manifest_entry_def malformed_manifest_def)
  ultimately show ?thesis by simp
qed

text \<open>
  Claim C3, as stated, fails for the empty application name: in production mode, with a
  manifest that maps the empty name to \<open>app.abc123.js\<close>, \<open>getHash('', 'bundle')\<close>
  returns the empty string and never reads the manifest (line 43). It also fails on a
  call that memoization answers: after \<open>getHash('app', 'bundle')\<close> has returned
  \<open>abc123\<close>, the call \<open>getHash('app', 'bundle', { PROJECT_PATH: '/srv/other' })\<close>
  returns \<open>abc123\<close> although the manifest of that project maps \<open>app\<close> to
  \<open>app.ffff00.js\<close>.
\<close>

theorem getHash_bundle_counterexample:
  "NODE_ENV unnamed_world = Some ''production''
   \<and> require unnamed_world ''/srv/app/build/client/assets.json'' = Some unnamed_manifest
   \<and> manifest_entry unnamed_manifest (JStr []) = JStr (''app'' @ ''.'' @ ''abc123'' @ ''.js'')
   \<and> fst (getHash unnamed_world [JStr [], JStr ''bundle''] fresh_state) = Inr (JStr [])
   \<and> path_join [JStr ''/srv/other'', JStr ''/build/client/'', JStr ''assets.json'']
       = Inr ''/srv/other/build/client/assets.json''
   \<and> require production_world ''/srv/other/build/client/assets.json'' = Some other_manifest
   \<and> manifest_entry other_manifest (JStr ''app'') = JStr (''app'' @ ''.'' @ ''ffff00'' @ ''.js'')
   \<and> fst (getHash production_world
            [JStr ''app'', JStr ''bundle'', JObj 7 [(''PROJECT_PATH'', JStr ''/srv/other'')]]
            (snd (getHash production_world [JStr ''app'', JStr ''bundle''] fresh_state)))
       = Inr (JStr ''abc123'')"
proof -
  have 1: "NODE_ENV unnamed_world = Some ''production''
     \<and> require unnamed_world ''/srv/app/build/client/assets.json'' = Some unnamed_manifest
     \<and> manifest_entry unnamed_manifest (JStr []) = JStr (''app'' @ ''.'' @ ''abc123'' @ ''.js'')
     \<and> fst (getHash unnamed_world [JStr [], JStr ''bundle''] fresh_state) = Inr (JStr [])"
    by (simp add: unnamed_world_def production_world_def unnamed_manifest_def manifest_entry_def
          fresh_state_fields getHash_def memoize_def getHash_func_def arg_def Let_def)
  have 2: "path_join [JStr ''/srv/other'', JStr ''/build/client/'', JStr ''assets.json'']
       = Inr ''/srv/other/build/client/assets.json''"
    by (simp add: path_join_def path_normalize_def Let_def)
  have 3: "manifest_entry other_manifest (JStr ''app'') = JStr (''app'' @ ''.'' @ ''ffff00'' @ ''.js'')"
    by (simp add: manifest_entry_def other_manifest_def)
  let ?s1 = "snd (getHash production_world [JStr ''app'', JStr ''bundle''] fresh_state)"
  have "getHash production_world [JStr ''app'', JStr ''bundle''] fresh_state = (Inr (JStr ''abc123''), ?s1)"
    using example_getHash by (simp add: prod_eq_iff)
  from getHash_stored [OF this] have "hashCache ?s1 (KeyPrim (JStr ''app'')) = Some (JStr ''abc123'')"
    by (simp add: arg_def)
  then have 4: "fst (getHash production_world
            [JStr ''app'', JStr ''bundle'', JObj 7 [(''PROJECT_PATH'', JStr ''/srv/other'')]] ?s1)
       = Inr (JStr ''abc123'')"
    by (simp add: getHash_def memoize_def arg_def)
  from 1 2 3 4 production_world_fields(5) show ?thesis by simp
qed

text \<open>
  Claim C3, amended. On a call of \<open>getHash(appName, 'bundle', options)\<close> for which no
  result is cached under \<open>appName\<close>: when \<open>NODE_ENV\<close> is not \<open>production\<close> the result
  is \<open>undefined\<close>, for every \<open>appName\<close>; when \<open>NODE_ENV\<close> is \<open>production\<close>,
  \<open>appName\<close> is truthy (a non-empty string) and the manifest loaded from
  \<open>path.join(PROJECT_PATH, BUILD_CLIENT_PATH, 'assets.json')\<close> maps \<open>appName\<close> to a file
  name \<open>name.hash.js\<close> whose hash is not empty and has no dot, the result is that hash.
  With the manifest \<open>{ "app": { "js": "app.abc123.js" } }\<close>, \<open>getHash('app', 'bundle')\<close>
  returns \<open>abc123\<close>.
\<close>

theorem getHash_bundle:
  assumes "hashCache s (key_of appName) = None"
  shows "(NODE_ENV w \<noteq> Some ''production''
            \<longrightarrow> fst (getHash w (appName # JStr ''bundle'' # rest) s) = Inr JUndefined)
       \<and> (NODE_ENV w = Some ''production'' \<and> truthy appName
          \<and> js_get (default_options (arg 0 rest)) ''PROJECT_PATH'' = Inr p
          \<and> path_join [js_or p (PROJECT_PATH s), JStr (BUILD_CLIENT_PATH s), JStr ''assets.json''] = Inr path
          \<and> require w path = Some assetsMeta
          \<and> manifest_entry assetsMeta appName = JStr (name @ ''.'' @ hash @ ''.js'')
          \<and> hash \<noteq> [] \<and> CHR ''.'' \<notin> set hash
            \<longrightarrow> fst (getHash w (appName # JStr ''bundle'' # rest) s) = Inr (JStr hash))"
proof -
  let ?args = "appName # JStr ''bundle'' # rest"
  have a: "arg 0 ?args = appName" "arg 1 ?args = JStr ''bundle''" "arg 2 ?args = arg 0 rest"
    by (simp_all add: arg_def)
  have m: "fst (getHash w ?args s) = fst (getHash_func w ?args s)"
    using assms by (intro getHash_miss) (simp add: a)
  have 1: "NODE_ENV w \<noteq> Some ''production'' \<Longrightarrow> fst (getHash_func w ?args s) = Inr JUndefined"
    by (simp add: getHash_func_def)
  have 2: "fst (getHash_func w ?args s) = Inr (JStr hash)"
    if "NODE_ENV w = Some ''production''" "truthy appName"
      "js_get (default_options (arg 0 rest)) ''PROJECT_PATH'' = Inr p"
      "path_join [js_or p (PROJECT_PATH s), JStr (BUILD_CLIENT_PATH s), JStr ''assets.json''] = Inr path"
      "require w path = Some assetsMeta"
      "manifest_entry assetsMeta appName = JStr (name @ ''.'' @ hash @ ''.js'')"
      "hash \<noteq> []" "CHR ''.'' \<notin> set hash"
    using that a
    by (intro getHash_func_loaded [where p = p and path = path and assetsMeta = assetsMeta and name = name])
       simp_all
  from m 1 2 show ?thesis by auto
qed

theorem getHash_bundle_witness:
  "hashCache fresh_state (key_of (JStr ''app'')) = None
   \<and> fst (getHash development_world [JStr ''app'', JStr ''bundle''] fresh_state) = Inr JUndefined
   \<and> fst (getHash production_world [JStr ''app'', JStr ''bundle''] fresh_state) = Inr (JStr ''abc123'')"
proof -
  have h: "hashCache fresh_state (key_of (JStr ''app'')) = None" by (rule fresh_hash_miss)
  have d: "fst (getHash development_world [JStr ''app'', JStr ''bundle''] fresh_state) = Inr JUndefined"
    using getHash_bundle [OF h, of development_world "[]"] by (simp add: development_world_fields)
  have p: "fst (getHash production_world [JStr ''app'', JStr ''bundle''] fresh_state) = Inr (JStr ''abc123'')"
    using getHash_bundle [OF h, of production_world "[]" JUndefined
        "''/srv/app/build/client/assets.json''" example_manifest "''app''" "''abc123''"]
    by (simp add: production_world_fields default_project_path fresh_state_fields
          example_assets_path example_manifest_entry [simplified])
  from h d p show ?thesis by simp
qed

text \<open>
  Claim C4, as stated, fails where \<open>getHash\<close> returns before it looks at anything: for
  an empty application name in production mode it returns the empty string although
  the type is unknown and the manifest is missing; outside production mode it returns
  \<open>undefined\<close> for an unknown type; and for an application name whose hash is cached
  it returns that hash although the type is unknown and the manifest is missing.
\<close>

theorem getHash_fails_fast_counterexample:
  "fst (getHash no_manifest_world [JStr [], JStr ''style''] fresh_state) = Inr (JStr [])
   \<and> fst (getHash development_world [JStr ''app'', JStr ''style''] fresh_state) = Inr JUndefined
   \<and> fst (getHash no_manifest_world [JStr ''app'', JStr ''style'']
            (snd (getHash production_world [JStr ''app'', JStr ''bundle''] fresh_state)))
       = Inr (JStr ''abc123'')"
proof -
  have 1: "fst (getHash no_manifest_world [JStr [], JStr ''style''] fresh_state) = Inr (JStr [])
     \<and> fst (getHash development_world [JStr ''app'', JStr ''style''] fresh_state) = Inr JUndefined"
    by (simp add: no_manifest_world_def development_world_def production_world_def
          fresh_state_fields getHash_def memoize_def getHash_func_def arg_def Let_def)
  let ?s1 = "snd (getHash production_world [JStr ''app'', JStr ''bundle''] fresh_state)"
  have "getHash production_world [JStr ''app'', JStr ''bundle''] fresh_state = (Inr (JStr ''abc123''), ?s1)"
    using example_getHash by (simp add: prod_eq_iff)
  from getHash_stored [OF this] have "hashCache ?s1 (KeyPrim (JStr ''app'')) = Some (JStr ''abc123'')"
    by (simp add: arg_def)
  then have "fst (getHash no_manifest_world [JStr ''app'', JStr ''style''] ?s1) = Inr (JStr ''abc123'')"
    by (simp add: getHash_def memoize_def arg_def)
  with 1 show ?thesis by simp
qed

text \<open>
  Claim C4, amended. When \<open>NODE_ENV\<close> is \<open>production\<close>, the application name is truthy
  and no result is cached under it, \<open>getHash\<close> throws, and returns no value, in each of
  these cases: the type is not \<open>'bundle'\<close>; the manifest at
  \<open>path.join(PROJECT_PATH, BUILD_CLIENT_PATH, 'assets.json')\<close> cannot be loaded (or the
  path cannot be formed); the manifest is loaded and what it records for the application
  is not a file name \<open>name.hash.js\<close> with a hash that is not empty and has no dot.
\<close>

theorem getHash_fails_fast:
  assumes "NODE_ENV w = Some ''production''" and "truthy (arg 0 args)"
    and "hashCache s (key_of (arg 0 args)) = None"
  shows "(arg 1 args \<noteq> JStr ''bundle'' \<longrightarrow> isl (fst (getHash w args s)))
       \<and> (\<not> (\<exists>p path assetsMeta.
               js_get (default_options (arg 2 args)) ''PROJECT_PATH'' = Inr p
             \<and> path_join [js_or p (PROJECT_PATH s), JStr (BUILD_CLIENT_PATH s), JStr ''assets.json''] = Inr path
             \<and> require w path = Some assetsMeta)
            \<longrightarrow> isl (fst (getHash w args s)))
       \<and> (\<forall>p path assetsMeta.
              js_get (default_options (arg 2 args)) ''PROJECT_PATH'' = Inr p
            \<and> path_join [js_or p (PROJECT_PATH s), JStr (BUILD_CLIENT_PATH s), JStr ''assets.json''] = Inr path
            \<and> require w path = Some assetsMeta
            \<and> \<not> (\<exists>name h. manifest_entry assetsMeta (arg 0 args) = JStr (name @ ''.'' @ h @ ''.js'')
                    \<and> h \<noteq> [] \<and> CHR ''.'' \<notin> set h)
            \<longrightarrow> isl (fst (getHash w args s)))"
proof -
  have m: "fst (getHash w args s) = fst (getHash_func w args s)"
    using assms(3) by (rule getHash_miss)
  have r: "\<not> isl (fst (getHash_func w args s)) \<Longrightarrow> \<exists>v. fst (getHash_func w args s) = Inr v"
    by (cases "fst (getHash_func w args s)") auto
  note ret = getHash_func_returns [OF assms(1,2)]
  have 1: "arg 1 args \<noteq> JStr ''bundle'' \<Longrightarrow> isl (fst (getHash_func w args s))"
    using r ret by blast
  have 2: "isl (fst (getHash_func w args s))"
    if "\<not> (\<exists>p path assetsMeta.
               js_get (default_options (arg 2 args)) ''PROJECT_PATH'' = Inr p
             \<and> path_join [js_or p (PROJECT_PATH s), JStr (BUILD_CLIENT_PATH s), JStr ''assets.json''] = Inr path
             \<and> require w path = Some assetsMeta)"
    using r ret that by blast
  have 3: "isl (fst (getHash_func w args s))"
    if "js_get (default_options (arg 2 args)) ''PROJECT_PATH'' = Inr p"
      "path_join [js_or p (PROJECT_PATH s), JStr (BUILD_CLIENT_PATH s), JStr ''assets.json''] = Inr path"
      "require w path = Some assetsMeta"
      "\<not> (\<exists>name h. manifest_entry assetsMeta (arg 0 args) = JStr (name @ ''.'' @ h @ ''.js'')
                    \<and> h \<noteq> [] \<and> CHR ''.'' \<notin> set h)"
    for p path assetsMeta
  proof (rule ccontr)
    assume "\<not> isl (fst (getHash_func w args s))"
    from r [OF this] obtain v where "fst (getHash_func w args s) = Inr v" ..
    from ret [OF this] that show False by auto
  qed
  from 1 2 3 show ?thesis unfolding m by blast
qed

theorem getHash_fails_fast_witness:
  "isl (fst (getHash production_world [JStr ''app'', JStr ''style''] fresh_state))
   \<and> isl (fst (getHash no_manifest_world [JStr ''app'', JStr ''bundle''] fresh_state))
   \<and> isl (fst (getHash malformed_world [JStr ''app'', JStr ''bundle''] fresh_state))"
proof -
  have t: "truthy (arg 0 [JStr ''app'', t])" for t by (simp add: arg_def)
  have m: "hashCache fresh_state (key_of (arg 0 [JStr ''app'', t])) = None" for t
    by (rule fresh_hash_miss)
  have 1: "isl (fst (getHash production_world [JStr ''app'', JStr ''style''] fresh_state))"
    using getHash_fails_fast [OF production_world_fields(1) t m, of "JStr ''style''"]
    by (simp add: arg_def)
  have 2: "isl (fst (getHash no_manifest_world [JStr ''app'', JStr ''bundle''] fresh_state))"
    using getHash_fails_fast [OF no_manifest_world_fields(1) t m, of "JStr ''bundle''"]
    by (simp add: no_manifest_world_fields)
  have 3: "isl (fst (getHash malformed_world [JStr ''app'', JStr ''bundle''] fresh_state))"
  proof -
    let ?args = "[JStr ''app'', JStr ''bundle'']"
    from getHash_fails_fast [OF malformed_world_fields(1) t m, of "JStr ''bundle''"]
    have c: "js_get (default_options (arg 2 ?args)) ''PROJECT_PATH'' = Inr p
        \<Longrightarrow> path_join [js_or p (PROJECT_PATH fresh_state), JStr (BUILD_CLIENT_PATH fresh_state),
               JStr ''assets.json''] = Inr path
        \<Longrightarrow> require malformed_world path = Some assetsMeta
        \<Longrightarrow> \<not> (\<exists>name h. manifest_entry assetsMeta (arg 0 ?args) = JStr (name @ ''.'' @ h @ ''.js'')
                    \<and> h \<noteq> [] \<and> CHR ''.'' \<notin> set h)
        \<Longrightarrow> isl (fst (getHash malformed_world ?args fresh_state))" for p path assetsMeta
      by blast
    show ?thesis
    proof (rule c [of JUndefined "''/srv/app/build/client/assets.json''" malformed_manifest])
      show "js_get (default_options (arg 2 ?args)) ''PROJECT_PATH'' = Inr JUndefined"
        by (rule default_project_path)
      show "path_join [js_or JUndefined (PROJECT_PATH fresh_state), JStr (BUILD_CLIENT_PATH fresh_state),
               JStr ''assets.json''] = Inr ''/srv/app/build/client/assets.json''"
        by (simp only: default_project_path fresh_state_fields example_assets_path)
      show "require malformed_world ''/srv/app/build/client/assets.json'' = Some malformed_manifest"
        by (rule malformed_world_fields)
      show "\<not> (\<exists>name h. manifest_entry malformed_manifest (arg 0 ?args) = JStr (name @ ''.'' @ h @ ''.js'')
                    \<and> h \<noteq> [] \<and> CHR ''.'' \<notin> set h)"
        using malformed_entry by (simp add: arg_def)
    qed
  qed
  from 1 2 3 show ?thesis by simp
qed

section \<open>The URL of a bundle\<close>





section \<open>The variable \<open>PROJECT_PATH\<close>\<close>

lemma memoize_PROJECT_PATH_hash:
  "PROJECT_PATH (snd (memoize hashCache (\<lambda>c s. s\<lparr>hashCache := c\<rparr>) k func s))
     = (case hashCache s k of Some v \<Rightarrow> PROJECT_PATH s | None \<Rightarrow> PROJECT_PATH (snd (func s)))"
  by (auto simp: memoize_def split: option.splits prod.splits sum.splits)

lemma memoize_PROJECT_PATH_resource:
  "PROJECT_PATH (snd (memoize resourcePathCache (\<lambda>c s. s\<lparr>resourcePathCache := c\<rparr>) k func s))
     = (case resourcePathCache s k of Some v \<Rightarrow> PROJECT_PATH s | None \<Rightarrow> PROJECT_PATH (snd (func s)))"
  by (auto simp: memoize_def split: option.splits prod.splits sum.splits)

lemma memoize_PROJECT_PATH_styles:
  "PROJECT_PATH (snd (memoize stylesCache (\<lambda>c s. s\<lparr>stylesCache := c\<rparr>) k func s))
     = (case stylesCache s k of Some v \<Rightarrow> PROJECT_PATH s | None \<Rightarrow> PROJECT_PATH (snd (func s)))"
  by (auto simp: memoize_def split: option.splits prod.splits sum.splits)

lemma getHash_func_PROJECT_PATH:
  "PROJECT_PATH (snd (getHash_func w args s))
     = (if NODE_ENV w = Some ''production'' \<and> truthy (arg 0 args)
        then (case js_get (default_options (arg 2 args)) ''PROJECT_PATH'' of
                Inl e \<Rightarrow> PROJECT_PATH s
              | Inr p \<Rightarrow> js_or p (PROJECT_PATH s))
        else PROJECT_PATH s)"
  by (auto simp: getHash_func_def Let_def split: sum.splits option.splits jsval.splits)

lemma getHash_PROJECT_PATH:
  "PROJECT_PATH (snd (getHash w args s))
     = (if hashCache s (key_of (arg 0 args)) = None \<and> NODE_ENV w = Some ''production'' \<and> truthy (arg 0 args)
        then (case js_get (default_options (arg 2 args)) ''PROJECT_PATH'' of
                Inl e \<Rightarrow> PROJECT_PATH s
              | Inr p \<Rightarrow> js_or p (PROJECT_PATH s))
        else PROJECT_PATH s)"
  by (auto simp: getHash_def memoize_PROJECT_PATH_hash getHash_func_PROJECT_PATH split: option.splits)

lemma default_options_idem: "default_options (default_options v) = default_options v"
  by (simp add: default_options_def)

lemma arg_simps:
  "arg 0 (a # xs) = a" "arg 1 (a # b # xs) = b" "arg 2 (a # b # c # xs) = c"
  by (simp_all add: arg_def)

lemma getResourcePath_func_PROJECT_PATH:
  "PROJECT_PATH (snd (getResourcePath_func w args s))
     = (if arg 0 args = JStr ''bundle'' \<and> NODE_ENV w = Some ''production''
        then (case js_get (default_options (arg 2 args)) ''BUILD_REFERENCE_URL'' of
                Inl e \<Rightarrow> PROJECT_PATH s
              | Inr b \<Rightarrow> PROJECT_PATH (snd (getHash w [arg 1 args, arg 0 args, default_options (arg 2 args)] s)))
        else PROJECT_PATH s)"
  by (auto simp: getResourcePath_func_def Let_def split: sum.splits prod.splits)

lemma omits_js_or:
  "omits_PROJECT_PATH options \<Longrightarrow>
     (case js_get options ''PROJECT_PATH'' of Inl e \<Rightarrow> d | Inr p \<Rightarrow> js_or p d) = d"
  by (auto simp: omits_PROJECT_PATH_def js_or_def split: sum.splits)

lemma getHash_omits:
  "omits_PROJECT_PATH (default_options (arg 2 args)) \<Longrightarrow> PROJECT_PATH (snd (getHash w args s)) = PROJECT_PATH s"
  by (simp add: getHash_PROJECT_PATH omits_js_or)

lemma getResourcePath_omits:
  assumes "omits_PROJECT_PATH (default_options (arg 2 args))"
  shows "PROJECT_PATH (snd (getResourcePath w args s)) = PROJECT_PATH s"
proof -
  have "PROJECT_PATH (snd (getHash w [arg 1 args, arg 0 args, default_options (arg 2 args)] s)) = PROJECT_PATH s"
    by (rule getHash_omits) (simp add: arg_simps default_options_idem assms)
  then have "PROJECT_PATH (snd (getResourcePath_func w args s)) = PROJECT_PATH s"
    by (auto simp: getResourcePath_func_PROJECT_PATH split: sum.splits)
  then show ?thesis
    by (simp add: getResourcePath_def memoize_PROJECT_PATH_resource split: option.splits)
qed

lemma getResourcePath_style_any_state:
  "getResourcePath w (JStr ''style'' # xs) s = getResourcePath w' (JStr ''style'' # xs) s"
  by (simp add: getResourcePath_def memoize_def getResourcePath_func_def arg_simps Let_def
        split: option.splits)

lemma getResourcePath_style_PROJECT_PATH:
  "PROJECT_PATH (snd (getResourcePath w (JStr ''style'' # xs) s)) = PROJECT_PATH s"
  by (simp add: getResourcePath_def memoize_PROJECT_PATH_resource getResourcePath_func_PROJECT_PATH
        arg_simps split: option.splits)

lemma getProductionStyles_func_PROJECT_PATH:
  "PROJECT_PATH (snd (getProductionStyles_func w args s))
     = (case js_get (default_options (arg 1 args)) ''PROJECT_PATH'' of
          Inl e \<Rightarrow> PROJECT_PATH s
        | Inr p \<Rightarrow> js_or p (PROJECT_PATH s))"
proof (cases "js_get (default_options (arg 1 args)) ''PROJECT_PATH''")
  case (Inl e)
  then show ?thesis by (simp add: getProductionStyles_func_def Let_def)
next
  case (Inr p)
  let ?s1 = "s\<lparr>PROJECT_PATH := js_or p (PROJECT_PATH s)\<rparr>"
  let ?g = "getResourcePath w [JStr ''style'', arg 0 args, default_options (arg 1 args)] ?s1"
  have "PROJECT_PATH (snd ?g) = js_or p (PROJECT_PATH s)"
    by (simp add: getResourcePath_style_PROJECT_PATH)
  with Inr show ?thesis
    by (cases ?g)
       (auto simp: getProductionStyles_func_def Let_def split: sum.splits option.splits)
qed

lemma getProductionStyles_PROJECT_PATH:
  "PROJECT_PATH (snd (getProductionStyles w args s))
     = (if stylesCache s (key_of (arg 0 args)) = None
        then (case js_get (default_options (arg 1 args)) ''PROJECT_PATH'' of
                Inl e \<Rightarrow> PROJECT_PATH s
              | Inr p \<Rightarrow> js_or p (PROJECT_PATH s))
        else PROJECT_PATH s)"
  by (auto simp: getProductionStyles_def memoize_PROJECT_PATH_styles getProductionStyles_func_PROJECT_PATH
           split: option.splits)

lemma step_omits:
  "omits_PROJECT_PATH (call_options c) \<Longrightarrow> PROJECT_PATH (snd (step w c s)) = PROJECT_PATH s"
  by (cases c) (simp_all add: getResourcePath_omits getHash_omits getProductionStyles_PROJECT_PATH omits_js_or)

lemma run_omits:
  "\<forall>wc \<in> set cs. omits_PROJECT_PATH (call_options (snd wc)) \<Longrightarrow> PROJECT_PATH (run cs s) = PROJECT_PATH s"
proof (induction cs arbitrary: s)
  case Nil
  show ?case by simp
next
  case (Cons wc cs)
  obtain w c where wc: "wc = (w, c)" by (cases wc)
  from Cons.prems wc have "omits_PROJECT_PATH (call_options c)" by simp
  from step_omits [OF this] Cons show ?case by (simp add: wc)
qed

lemma getHash_func_world:
  assumes "NODE_ENV w' = NODE_ENV w"
    and "js_get (default_options (arg 2 args)) ''PROJECT_PATH'' = Inr p"
    and "path_join [js_or p (PROJECT_PATH s), JStr (BUILD_CLIENT_PATH s), JStr ''assets.json''] = Inr path"
    and "require w' path = require w path"
  shows "getHash_func w' args s = getHash_func w args s"
  using assms by (simp add: getHash_func_def Let_def)

lemma getProductionStyles_func_world:
  assumes "js_get (default_options (arg 1 args)) ''PROJECT_PATH'' = Inr p" and "\<not> truthy p"
    and "fst (getResourcePath w [JStr ''style'', arg 0 args, default_options (arg 1 args)] s) = Inr rel"
    and "path_join [PROJECT_PATH s, rel] = Inr path"
    and "existsSync w' path = existsSync w path"
    and "readFileSync w' path = readFileSync w path"
  shows "getProductionStyles_func w' args s = getProductionStyles_func w args s"
proof -
  let ?g = "\<lambda>w. getResourcePath w [JStr ''style'', arg 0 args, default_options (arg 1 args)] s"
  have s1: "s\<lparr>PROJECT_PATH := js_or p (PROJECT_PATH s)\<rparr> = s"
    using assms(2) by (simp add: js_or_def)
  have g: "?g w' = ?g w" by (rule getResourcePath_style_any_state)
  obtain s2 where g2: "?g w = (Inr rel, s2)"
    using assms(3) by (cases "?g w") auto
  have "PROJECT_PATH s2 = PROJECT_PATH s"
    using getResourcePath_style_PROJECT_PATH [of w "[arg 0 args, default_options (arg 1 args)]" s] g2
    by simp
  with assms g g2 s1 show ?thesis
    by (simp add: getProductionStyles_func_def Let_def)
qed

lemma example_getHash_PROJECT_PATH:
  "PROJECT_PATH (snd (getHash production_world [JStr ''app'', JStr ''bundle''] fresh_state)) = JStr ''/srv/app''"
  by (simp add: getHash_PROJECT_PATH fresh_state_fields arg_def default_options_def js_or_def)

lemma example_style_path:
  "path_join [JStr ''/srv/app'', JStr ''/build/client/app.css''] = Inr ''/srv/app/build/client/app.css''"
  by (simp add: path_join_def path_normalize_def Let_def)

text \<open>
  Claim C10, as stated, fails on a call that memoization answers: after
  \<open>getHash('app', 'bundle')\<close> has stored its result, the call
  \<open>getHash('app', 'bundle', { PROJECT_PATH: '/srv/other' })\<close> provides a
  \<open>PROJECT_PATH\<close>, yet the variable keeps its value \<open>/srv/app\<close>: the function is not
  run.
\<close>

theorem PROJECT_PATH_overwritten_counterexample:
  "js_get (default_options (arg 2 [JStr ''app'', JStr ''bundle'', JObj 7 [(''PROJECT_PATH'', JStr ''/srv/other'')]]))
       ''PROJECT_PATH'' = Inr (JStr ''/srv/other'')
   \<and> PROJECT_PATH
        (snd (getHash production_world [JStr ''app'', JStr ''bundle'', JObj 7 [(''PROJECT_PATH'', JStr ''/srv/other'')]]
               (snd (getHash production_world [JStr ''app'', JStr ''bundle''] fresh_state))))
       = JStr ''/srv/app''"
proof -
  let ?s1 = "snd (getHash production_world [JStr ''app'', JStr ''bundle''] fresh_state)"
  have "getHash production_world [JStr ''app'', JStr ''bundle''] fresh_state = (Inr (JStr ''abc123''), ?s1)"
    using example_getHash by (simp add: prod_eq_iff)
  from getHash_stored [OF this] have "hashCache ?s1 (KeyPrim (JStr ''app'')) = Some (JStr ''abc123'')"
    by (simp add: arg_def)
  then have "PROJECT_PATH
        (snd (getHash production_world [JStr ''app'', JStr ''bundle'', JObj 7 [(''PROJECT_PATH'', JStr ''/srv/other'')]] ?s1))
       = PROJECT_PATH ?s1"
    by (simp add: getHash_PROJECT_PATH arg_def)
  with example_getHash_PROJECT_PATH show ?thesis
    by (simp add: arg_def default_options_def)
qed

text \<open>
  Claim C10, amended. On a call whose function is run (no result is cached under the
  first argument), \<open>getHash\<close>, when \<open>NODE_ENV\<close> is \<open>production\<close> and \<open>appName\<close> is
  truthy, and \<open>getProductionStyles\<close> each overwrite the variable \<open>PROJECT_PATH\<close> with
  \<open>options.PROJECT_PATH\<close> when that is given (truthy), whether or not the call then
  throws. The value persists: a sequence of calls of the module that give no
  \<open>PROJECT_PATH\<close> leaves the variable as it is, and such a call of \<open>getHash\<close> or
  \<open>getProductionStyles\<close>, when it is run, resolves its file against the current value
  of the variable: its outcome depends on the world only through \<open>NODE_ENV\<close> and the
  manifest at \<open>path.join(PROJECT_PATH, BUILD_CLIENT_PATH, 'assets.json')\<close>, respectively
  through the file at \<open>path.join(PROJECT_PATH, styleRelPath)\<close>.
\<close>

theorem PROJECT_PATH_overwritten:
  "(NODE_ENV w = Some ''production'' \<and> truthy (arg 0 args)
      \<and> hashCache s (key_of (arg 0 args)) = None
      \<and> js_get (default_options (arg 2 args)) ''PROJECT_PATH'' = Inr p \<and> truthy p
        \<longrightarrow> PROJECT_PATH (snd (getHash w args s)) = p)
   \<and> (stylesCache s (key_of (arg 0 args)) = None
      \<and> js_get (default_options (arg 1 args)) ''PROJECT_PATH'' = Inr p \<and> truthy p
        \<longrightarrow> PROJECT_PATH (snd (getProductionStyles w args s)) = p)
   \<and> ((\<forall>wc \<in> set cs. case js_get (call_options (snd wc)) ''PROJECT_PATH'' of
                         Inl e \<Rightarrow> True | Inr q \<Rightarrow> \<not> truthy q)
        \<longrightarrow> PROJECT_PATH (run cs s) = PROJECT_PATH s)
   \<and> (NODE_ENV w = Some ''production'' \<and> truthy (arg 0 args)
      \<and> hashCache s (key_of (arg 0 args)) = None
      \<and> js_get (default_options (arg 2 args)) ''PROJECT_PATH'' = Inr q \<and> \<not> truthy q
      \<and> path_join [PROJECT_PATH s, JStr (BUILD_CLIENT_PATH s), JStr ''assets.json''] = Inr path
      \<and> NODE_ENV w' = NODE_ENV w \<and> require w' path = require w path
        \<longrightarrow> getHash w' args s = getHash w args s)
   \<and> (stylesCache s (key_of (arg 0 args)) = None
      \<and> js_get (default_options (arg 1 args)) ''PROJECT_PATH'' = Inr q \<and> \<not> truthy q
      \<and> fst (getResourcePath w [JStr ''style'', arg 0 args, default_options (arg 1 args)] s) = Inr rel
      \<and> path_join [PROJECT_PATH s, rel] = Inr stylePath
      \<and> existsSync w' stylePath = existsSync w stylePath
      \<and> readFileSync w' stylePath = readFileSync w stylePath
        \<longrightarrow> getProductionStyles w' args s = getProductionStyles w args s)"
proof (intro conjI impI)
  assume "NODE_ENV w = Some ''production'' \<and> truthy (arg 0 args)
      \<and> hashCache s (key_of (arg 0 args)) = None
      \<and> js_get (default_options (arg 2 args)) ''PROJECT_PATH'' = Inr p \<and> truthy p"
  then show "PROJECT_PATH (snd (getHash w args s)) = p"
    by (simp add: getHash_PROJECT_PATH js_or_def)
next
  assume "stylesCache s (key_of (arg 0 args)) = None
      \<and> js_get (default_options (arg 1 args)) ''PROJECT_PATH'' = Inr p \<and> truthy p"
  then show "PROJECT_PATH (snd (getProductionStyles w args s)) = p"
    by (simp add: getProductionStyles_PROJECT_PATH js_or_def)
next
  assume "\<forall>wc \<in> set cs. case js_get (call_options (snd wc)) ''PROJECT_PATH'' of
                         Inl e \<Rightarrow> True | Inr q \<Rightarrow> \<not> truthy q"
  then show "PROJECT_PATH (run cs s) = PROJECT_PATH s"
    by (intro run_omits) (simp add: omits_PROJECT_PATH_def)
next
  assume a: "NODE_ENV w = Some ''production'' \<and> truthy (arg 0 args)
      \<and> hashCache s (key_of (arg 0 args)) = None
      \<and> js_get (default_options (arg 2 args)) ''PROJECT_PATH'' = Inr q \<and> \<not> truthy q
      \<and> path_join [PROJECT_PATH s, JStr (BUILD_CLIENT_PATH s), JStr ''assets.json''] = Inr path
      \<and> NODE_ENV w' = NODE_ENV w \<and> require w' path = require w path"
  then have "getHash_func w' args s = getHash_func w args s"
    by (intro getHash_func_world [where p = q and path = path]) (simp_all add: js_or_def)
  then show "getHash w' args s = getHash w args s"
    by (simp add: getHash_def memoize_def split: option.splits)
next
  assume a: "stylesCache s (key_of (arg 0 args)) = None
      \<and> js_get (default_options (arg 1 args)) ''PROJECT_PATH'' = Inr q \<and> \<not> truthy q
      \<and> fst (getResourcePath w [JStr ''style'', arg 0 args, default_options (arg 1 args)] s) = Inr rel
      \<and> path_join [PROJECT_PATH s, rel] = Inr stylePath
      \<and> existsSync w' stylePath = existsSync w stylePath
      \<and> readFileSync w' stylePath = readFileSync w stylePath"
  then have "getProductionStyles_func w' args s = getProductionStyles_func w args s"
    by (intro getProductionStyles_func_world [where p = q and rel = rel and path = stylePath]) simp_all
  then show "getProductionStyles w' args s = getProductionStyles w args s"
    by (simp add: getProductionStyles_def memoize_def split: option.splits)
qed

theorem PROJECT_PATH_overwritten_witness:
  "PROJECT_PATH (snd (getHash production_world
       [JStr ''app'', JStr ''bundle'', JObj 7 [(''PROJECT_PATH'', JStr ''/srv/other'')]] fresh_state))
     = JStr ''/srv/other''
   \<and> PROJECT_PATH (snd (getProductionStyles production_world
       [JStr ''app'', JObj 7 [(''PROJECT_PATH'', JStr ''/srv/other'')]] fresh_state))
     = JStr ''/srv/other''
   \<and> PROJECT_PATH (run [(production_world, GetHash [JStr ''app'', JStr ''bundle'']),
                         (development_world, GetProductionStyles [JStr ''app''])]
        (snd (getHash production_world
           [JStr ''x'', JStr ''bundle'', JObj 7 [(''PROJECT_PATH'', JStr ''/srv/other'')]] fresh_state)))
     = PROJECT_PATH (snd (getHash production_world
           [JStr ''x'', JStr ''bundle'', JObj 7 [(''PROJECT_PATH'', JStr ''/srv/other'')]] fresh_state))
   \<and> getHash (production_world\<lparr>existsSync := (\<lambda>p. False)\<rparr>) [JStr ''app'', JStr ''bundle''] fresh_state
     = getHash production_world [JStr ''app'', JStr ''bundle''] fresh_state
   \<and> getProductionStyles no_manifest_world [JStr ''app''] fresh_state
     = getProductionStyles production_world [JStr ''app''] fresh_state"
proof -
  let ?o = "JObj 7 [(''PROJECT_PATH'', JStr ''/srv/other'')]"
  have 1: "PROJECT_PATH (snd (getHash production_world [JStr ''app'', JStr ''bundle'', ?o] fresh_state))
     = JStr ''/srv/other''"
    using PROJECT_PATH_overwritten [where w = production_world
        and args = "[JStr ''app'', JStr ''bundle'', ?o]" and s = fresh_state and p = "JStr ''/srv/other''"]
    by (simp add: production_world_fields fresh_state_fields arg_def default_options_def)
  have 2: "PROJECT_PATH (snd (getProductionStyles production_world [JStr ''app'', ?o] fresh_state))
     = JStr ''/srv/other''"
    using PROJECT_PATH_overwritten [where w = production_world
        and args = "[JStr ''app'', ?o]" and s = fresh_state and p = "JStr ''/srv/other''"]
    by (simp add: fresh_state_fields arg_def default_options_def)
  let ?cs = "[(production_world, GetHash [JStr ''app'', JStr ''bundle'']),
              (development_world, GetProductionStyles [JStr ''app''])]"
  let ?s1 = "snd (getHash production_world [JStr ''x'', JStr ''bundle'', ?o] fresh_state)"
  have 3: "PROJECT_PATH (run ?cs ?s1) = PROJECT_PATH ?s1"
    using PROJECT_PATH_overwritten [where cs = ?cs and s = ?s1]
    by (simp add: arg_def default_options_def)
  let ?w' = "production_world\<lparr>existsSync := (\<lambda>p. False)\<rparr>"
  have 4: "getHash ?w' [JStr ''app'', JStr ''bundle''] fresh_state
     = getHash production_world [JStr ''app'', JStr ''bundle''] fresh_state"
    using PROJECT_PATH_overwritten [where w = production_world
        and args = "[JStr ''app'', JStr ''bundle'']" and s = fresh_state and q = JUndefined
        and path = "''/srv/app/build/client/assets.json''" and w' = ?w']
    by (simp add: production_world_fields fresh_state_fields arg_def default_options_def
          example_assets_path)
  have rel: "fst (getResourcePath production_world [JStr ''style'', JStr ''app'', JObj 0 []] fresh_state)
      = Inr (JStr ''/build/client/app.css'')"
    by (simp add: getResourcePath_miss fresh_state_fields getResourcePath_func_def arg_def Let_def)
  have 5: "getProductionStyles no_manifest_world [JStr ''app''] fresh_state
     = getProductionStyles production_world [JStr ''app''] fresh_state"
    using PROJECT_PATH_overwritten [where w = production_world
        and args = "[JStr ''app'']" and s = fresh_state and q = JUndefined
        and rel = "JStr ''/build/client/app.css''" and stylePath = "''/srv/app/build/client/app.css''"
        and w' = no_manifest_world] rel
    by (simp add: fresh_state_fields arg_def default_options_def example_style_path
          no_manifest_world_def)
  from 1 2 3 4 5 show ?thesis by simp
qed

section \<open>The URL of a bundle, in every reachable state\<close>



lemma entry_ok_mono:
  assumes "entry_ok w s args v"
    and "BUILD_CLIENT_PATH s' = BUILD_CLIENT_PATH s" and "hashCache s \<subseteq>\<^sub>m hashCache s'"
  shows "entry_ok w s' args v"
proof -
  have h: "hashCache s k = Some x \<Longrightarrow> hashCache s' k = Some x" for k x
    using assms(3) by (auto simp: map_le_def dom_def)
  from assms(1) show ?thesis
    unfolding entry_ok_def assms(2) by (auto dest: h split: if_splits)
qed

lemma entry_ok_extends:
  "entry_ok w s args v \<Longrightarrow> extends s s' \<Longrightarrow> entry_ok w s' args v"
  by (rule entry_ok_mono) (auto simp: extends_def)

























section \<open>The client bootstrap\<close>

lemma configure_channelOptions:
  "map_option baseUrl (channelOptions (snd (configure p s)))
     = Some (if isWeb p then DEFAULT_BASE_URL p
             else if \<not> nullish (options_baseUrl s)
               then (if truthy (options_baseUrl s) then options_baseUrl s else DEFAULT_BASE_URL p)
             else if truthy (mo_baseUrl (MODULE_options s)) then mo_baseUrl (MODULE_options s)
             else DEFAULT_BASE_URL p)"
  by (simp add: configure_def Let_def)

lemma run_plugins_channelOptions:
  assumes "\<forall>plugin \<in> set plugins. \<forall>t. channelOptions (snd (plugin t)) = channelOptions t"
  shows "channelOptions (fst (snd (run_plugins plugins s))) = channelOptions s"
  using assms
proof (induction plugins arbitrary: s)
  case Nil
  show ?case by simp
next
  case (Cons plugin plugins)
  obtain r s1 where p: "plugin s = (r, s1)" by (cases "plugin s")
  from Cons.prems have c: "channelOptions s1 = channelOptions s"
    using p by (metis list.set_intros(1) snd_conv)
  from Cons.prems have "\<forall>plugin \<in> set plugins. \<forall>t. channelOptions (snd (plugin t)) = channelOptions t"
    by simp
  from Cons.IH [OF this, of s1] c p show ?case
    by (cases r) (auto simp: Let_def split: prod.splits)
qed

lemma init_channelOptions:
  assumes "\<forall>t. channelOptions (snd (commonInit t)) = channelOptions t"
    and "\<forall>plugin \<in> set plugins. \<forall>t. channelOptions (snd (plugin t)) = channelOptions t"
  shows "channelOptions (fst (snd (init p commonInit plugins s))) = channelOptions (snd (configure p s))"
proof -
  obtain warn s1 where c: "configure p s = (warn, s1)" by (cases "configure p s")
  obtain r2 s2 where ci: "commonInit s1 = (r2, s2)" by (cases "commonInit s1")
  have 2: "channelOptions s2 = channelOptions s1"
    using assms(1) ci by (metis snd_conv)
  obtain r3 s3 evs where rp: "run_plugins plugins s2 = (r3, s3, evs)"
    by (cases "run_plugins plugins s2")
  have 3: "channelOptions s3 = channelOptions s2"
    using run_plugins_channelOptions [OF assms(2), of s2] rp by simp
  from c ci rp 2 3 show ?thesis
    by (cases r2; cases r3) (auto simp: init_def)
qed

lemma no_effect_channelOptions: "\<forall>t. channelOptions (snd (no_effect t)) = channelOptions t"
  by (simp add: no_effect_def)

lemma run_plugins_no_connect:
  "ConnectModel \<notin> set (snd (snd (run_plugins plugins s)))"
proof (induction plugins arbitrary: s)
  case Nil
  show ?case by simp
next
  case (Cons plugin plugins)
  obtain r s1 where p: "plugin s = (r, s1)" by (cases "plugin s")
  from Cons.IH [of s1] p show ?case
    by (cases r) (auto simp: Let_def split: prod.splits)
qed

lemma configure_no_connect: "ConnectModel \<notin> set (fst (configure p s))"
  by (simp add: configure_def Let_def)

text \<open>
  Claim C7, as stated, fails for an explicit option that is falsy without being
  \<open>undefined\<close> or \<open>null\<close>: with \<open>baseUrl: ''\<close>, a module configuration that names
  \<open>https://config.example\<close> and a native platform, the URL written is the platform
  default, where the precedence of the claim gives the option itself (if an empty option
  counts as given) or the module configuration (if it does not).
\<close>

theorem init_baseUrl_counterexample:
  "map_option baseUrl (channelOptions (fst (snd (init native_platform no_effect []
       (example_client\<lparr>options_baseUrl := JStr []\<rparr>)))))
     = Some (JStr ''http://localhost:3000'')
   \<and> precedence_baseUrl not_nullish native_platform (example_client\<lparr>options_baseUrl := JStr []\<rparr>)
     = JStr []
   \<and> precedence_baseUrl truthy native_platform (example_client\<lparr>options_baseUrl := JStr []\<rparr>)
     = JStr ''https://config.example''"
  by (simp add: init_def configure_def no_effect_def native_platform_def example_client_def
        nullish_def not_nullish_def precedence_baseUrl_def Let_def)

text \<open>
  Claim C7, amended. The base URL that \<open>init\<close> writes into the channel options (and that
  \<open>commonInit\<close> and the plugins, which run afterwards, are assumed to leave alone) is:
  in a browser, the platform default \<open>DEFAULT_BASE_URL\<close>, whatever the option and the
  configuration are; otherwise the explicit option when it is neither \<open>undefined\<close> nor
  \<open>null\<close>, else the module configuration, and the platform default in place of a falsy
  value (an empty string) of either. In particular, with no explicit option in a browser
  it is the platform default.
\<close>

theorem init_baseUrl:
  assumes "\<forall>t. channelOptions (snd (commonInit t)) = channelOptions t"
    and "\<forall>plugin \<in> set plugins. \<forall>t. channelOptions (snd (plugin t)) = channelOptions t"
  shows "map_option baseUrl (channelOptions (fst (snd (init p commonInit plugins s))))
     = Some (if isWeb p then DEFAULT_BASE_URL p
             else if \<not> nullish (options_baseUrl s)
               then (if truthy (options_baseUrl s) then options_baseUrl s else DEFAULT_BASE_URL p)
             else if truthy (mo_baseUrl (MODULE_options s)) then mo_baseUrl (MODULE_options s)
             else DEFAULT_BASE_URL p)"
  unfolding init_channelOptions [OF assms] by (rule configure_channelOptions)

theorem init_baseUrl_witness:
  "map_option baseUrl (channelOptions (fst (snd (init web_platform no_effect [no_effect] example_client))))
     = Some (JStr ''http://localhost:3000'')
   \<and> map_option baseUrl (channelOptions (fst (snd (init native_platform no_effect [no_effect] example_client))))
     = Some (JStr ''https://config.example'')
   \<and> map_option baseUrl (channelOptions (fst (snd (init native_platform no_effect [no_effect]
         (example_client\<lparr>options_baseUrl := JStr ''https://option.example''\<rparr>)))))
     = Some (JStr ''https://option.example'')"
proof -
  have p: "\<forall>plugin \<in> set [no_effect]. \<forall>t. channelOptions (snd (plugin t)) = channelOptions t"
    by (simp add: no_effect_def)
  note th = init_baseUrl [OF no_effect_channelOptions p]
  show ?thesis
    using th [of web_platform example_client] th [of native_platform example_client]
      th [of native_platform "example_client\<lparr>options_baseUrl := JStr ''https://option.example''\<rparr>"]
    by (simp add: web_platform_def native_platform_def example_client_def nullish_def)
qed

text \<open>
  Claim C8. \<open>init\<close> invokes \<open>connectModel\<close> if and only if it reaches its last line
  (neither \<open>commonInit\<close> nor a plugin has thrown) and the module configuration, as it is
  then, has \<open>enableServer\<close> or \<open>enableConnection\<close> truthy. When neither is enabled,
  \<open>init\<close> triggers no connection.
\<close>

theorem init_connectModel:
  assumes "init p commonInit plugins s = (r, s', evs)"
  shows "ConnectModel \<in> set evs
     \<longleftrightarrow> r = None \<and> (truthy (enableServer (MODULE_options s')) \<or> truthy (enableConnection (MODULE_options s')))"
proof -
  obtain warn s1 where c: "configure p s = (warn, s1)" by (cases "configure p s")
  obtain r2 s2 where ci: "commonInit s1 = (r2, s2)" by (cases "commonInit s1")
  obtain r3 s3 pevs where rp: "run_plugins plugins s2 = (r3, s3, pevs)"
    by (cases "run_plugins plugins s2")
  have w: "ConnectModel \<notin> set warn"
    using configure_no_connect [of p s] c by simp
  have e: "ConnectModel \<notin> set pevs"
    using run_plugins_no_connect [of plugins s2] rp by simp
  from assms c ci rp w e show ?thesis
    by (cases r2; cases r3) (auto simp: init_def split: if_splits)
qed

theorem init_connectModel_witness:
  "ConnectModel \<in> set (snd (snd (init native_platform no_effect [no_effect] example_client)))
   \<and> ConnectModel \<notin> set (snd (snd (init native_platform no_effect [no_effect]
        (example_client\<lparr>MODULE_options := (MODULE_options example_client)\<lparr>enableServer := JBool False\<rparr>\<rparr>))))"
proof -
  let ?c = "example_client\<lparr>MODULE_options := (MODULE_options example_client)\<lparr>enableServer := JBool False\<rparr>\<rparr>"
  have s: "fst (snd (init native_platform no_effect [no_effect] t)) = snd (configure native_platform t)"
    and r: "fst (init native_platform no_effect [no_effect] t) = None" for t
    by (cases "configure native_platform t"; simp add: init_def no_effect_def Let_def)+
  have m: "MODULE_options (snd (configure native_platform t)) = MODULE_options t" for t
    by (simp add: configure_def Let_def)
  have i: "init native_platform no_effect [no_effect] t
      = (None, snd (configure native_platform t), snd (snd (init native_platform no_effect [no_effect] t)))" for t
    using s [of t] r [of t] by (simp add: prod_eq_iff)
  show ?thesis
    using init_connectModel [OF i [of example_client]] init_connectModel [OF i [of ?c]]
    by (simp add: m example_client_def)
qed

end
